theory Spec2Isabelle
  imports Main "HOL-Library.AList" "HOL-Library.Multiset"
begin

section \<open>Via-server selection of the space updater (main.py)\<close>

text \<open>
  The script recomputes the \<open>via\<close> list of every child of a Matrix space. The pure
  helpers of \<open>main.py\<close> come first, then the loop of \<open>update_via\<close> with the client
  calls and the printed lines made explicit.
\<close>

subsection \<open>Errors\<close>

text \<open>
  Every exception that \<open>update_via\<close> and its helpers can raise is a value:
  \<open>IndexError\<close> (\<open>split(":")[1]\<close>, \<open>rooms[0]\<close>), \<open>ValueError\<close> (\<open>max\<close> of an empty
  sequence), \<open>KeyError\<close> (a subscript on a key the dictionary lacks), \<open>AttributeError\<close>
  (\<open>.content\<close> read from an error response), the two exception classes of the script, and
  \<open>RaisedResponse\<close> for \<open>raise members_resp\<close> at line 53.
\<close>

datatype error =
    IndexError
  | ValueError
  | KeyError
  | AttributeError
  | ErrorGettingSpace string
  | ErrorUpdatingState string
  | RaisedResponse string

subsection \<open>Homeserver extractor (lines 148-149)\<close>

text \<open>
  \<open>str.split(sep)\<close> with an explicit separator cuts at every occurrence of the separator
  and keeps empty pieces; the result always has at least one piece.
\<close>

fun str_split :: "char \<Rightarrow> string \<Rightarrow> string list" where
  "str_split sep [] = [[]]"
| "str_split sep (c # cs) =
     (if c = sep then [] # str_split sep cs
      else (case str_split sep cs of
              [] \<Rightarrow> [[c]]
            | w # ws \<Rightarrow> (c # w) # ws))"

text \<open>\<open>user_id.split(":")[1]\<close>: the second piece, or IndexError when there is none.\<close>

definition get_user_homeserver :: "string \<Rightarrow> error + string" where
  "get_user_homeserver user_id =
     (case str_split (CHR '':'') user_id of
        _ # server # _ \<Rightarrow> Inr server
      | _ \<Rightarrow> Inl IndexError)"

text \<open>
  The list comprehension \<open>[get_user_homeserver(u) for u in us]\<close> (lines 58 and 79-81):
  the first failing element aborts the whole comprehension.
\<close>

fun homeservers :: "string list \<Rightarrow> error + string list" where
  "homeservers [] = Inr []"
| "homeservers (u # us) =
     (case get_user_homeserver u of
        Inl e \<Rightarrow> Inl e
      | Inr s \<Rightarrow> (case homeservers us of Inl e \<Rightarrow> Inl e | Inr ss \<Rightarrow> Inr (s # ss)))"

subsection \<open>Frequency selector (lines 152-159)\<close>

text \<open>
  A Python \<open>dict\<close> keeps its keys in insertion order; assigning to a key that is present
  replaces the value in place. That is \<open>AList.update\<close> on an association list.
  \<open>Counter(lst)\<close> counts the elements of \<open>lst\<close> in iteration order.
\<close>

definition Counter :: "'a list \<Rightarrow> ('a \<times> int) list" where
  "Counter lst =
     fold (\<lambda>x c. AList.update x ((case map_of c x of None \<Rightarrow> 0 | Some k \<Rightarrow> k) + 1) c) lst []"

text \<open>
  \<open>xs[:n]\<close>: the first \<open>n\<close> elements for \<open>n \<ge> 0\<close>; for a negative \<open>n\<close> the slice stops
  \<open>-n\<close> elements before the end.
\<close>

definition slice_to :: "int \<Rightarrow> 'a list \<Rightarrow> 'a list" where
  "slice_to n xs =
     (if 0 \<le> n then take (nat n) xs else take (nat (int (length xs) + n)) xs)"

text \<open>
  \<open>sorted(items, key=count, reverse=True)\<close> is a stable sort by descending count: items
  with the same count keep their order. \<open>sort_key\<close> is stable and ascending, so the key
  is the negated count.
\<close>

definition most_common_servers :: "'a list \<Rightarrow> int \<Rightarrow> int \<Rightarrow> 'a list" where
  "most_common_servers lst n min_occurrences =
     (let counter = Counter lst;
          filtered_items = filter (\<lambda>(item, count). count \<ge> min_occurrences) counter;
          sorted_items = sort_key (\<lambda>(item, count). - count) filtered_items;
          top_n_items = map fst (slice_to n sorted_items)
      in top_n_items)"

subsection \<open>Authority selector (lines 135-145)\<close>

text \<open>\<open>max(values)\<close> raises ValueError on an empty sequence.\<close>

definition py_max :: "int list \<Rightarrow> error + int" where
  "py_max vs = (case vs of [] \<Rightarrow> Inl ValueError | v # rest \<Rightarrow> Inr (fold max rest v))"

definition get_highest_level_members :: "(string \<times> int) list \<Rightarrow> int \<Rightarrow> error + string list" where
  "get_highest_level_members member_levels threshold =
     (case py_max (map snd member_levels) of
        Inl e \<Rightarrow> Inl e
      | Inr highest_value \<Rightarrow>
          if highest_value \<le> threshold then Inr []
          else Inr (map fst (filter (\<lambda>(key, val). val = highest_value) member_levels)))"

text \<open>
  Lines 76-81 of \<open>update_via\<close>: the call with the default threshold 50, and the
  homeservers of the members it returns.
\<close>

definition highest_level_servers :: "(string \<times> int) list \<Rightarrow> error + string list" where
  "highest_level_servers member_levels =
     (case get_highest_level_members member_levels 50 of
        Inl e \<Rightarrow> Inl e
      | Inr highest_level_members \<Rightarrow> homeservers highest_level_members)"

subsection \<open>Data of \<open>update_via\<close>\<close>

text \<open>
  \<open>config_toml["main"]\<close>, one field per key that \<open>update_via\<close> reads. The count of
  most common servers is the key \<open>most_common_servers\<close>; the field is named
  \<open>most_common_count\<close> because the function has that name.
\<close>

record config =
  space_id :: string
  most_common_count :: int
  min_users_per_server :: int
  additional_servers :: "string list"
  optimal_via_servers :: int
  ignore_requirementrs_to_reach_optimum :: bool
  shuffle_order :: bool
  dry_run :: bool
  ignore_errors :: bool

text \<open>
  An entry of \<open>space["children_state"]\<close> is a dictionary decoded from JSON. The loop
  reads four of its keys by subscript, which raises KeyError on a key the dictionary lacks:
  \<open>None\<close> below is a lacking key. The value under \<open>state_key\<close> is tested for
  truth (\<open>not room_id\<close>), so it is either Python's \<open>None\<close> or a string.
  The client checks a hierarchy response before it hands it over, and answers an error
  response otherwise (line 30): the entries that reach the loop carry their type and
  their state key, and a state key that is absent there is the value \<open>None\<close>.
\<close>

datatype py_str = PyNone | PyStr string

record child_state =
  ev_type :: "string option"
  state_key :: "py_str option"
  suggested :: "bool option"
  via :: "string list option"

record room_summary =
  room_id :: string
  children_state :: "child_state list"

text \<open>
  The content of the \<open>m.room.power_levels\<close> event; both keys are read with
  \<open>.get\<close> and a default (lines 71-72).
\<close>

record power_levels =
  users :: "(string \<rightharpoonup> int) option"
  users_default :: "int option"

text \<open>
  The homeserver behind the client, as far as \<open>update_via\<close> talks to it. A response
  is \<open>Inr\<close> of the payload or \<open>Inl\<close> of an error response (shown as text). The
  homeserver is not part of the script: the fields say what each call answers, and
  \<open>room_put_state\<close> below says what a successful write does to the space.
  \<open>rng\<close> is the state of Python's random generator.
\<close>

record world =
  hierarchy :: "string + room_summary list"
  joined_members :: "string \<Rightarrow> string + string list"
  power_levels_event :: "string \<Rightarrow> string + power_levels"
  put_state_error :: "string \<Rightarrow> string option"
  rng :: nat

text \<open>
  Two things the script leaves to the Python runtime: the order in which
  \<open>list(set(xs))\<close> enumerates a set (it depends on the hash seed of the process), and
  the permutation \<open>random.shuffle\<close> picks. Both are parameters; \<open>runtime_ok\<close> says
  what Python guarantees of them.
\<close>

record runtime =
  set_order :: "string list \<Rightarrow> string list"
  shuffle :: "nat \<Rightarrow> string list \<Rightarrow> string list \<times> nat"

definition runtime_ok :: "runtime \<Rightarrow> bool" where
  "runtime_ok rt \<longleftrightarrow>
     (\<forall>xs. set (set_order rt xs) = set xs \<and> distinct (set_order rt xs))
     \<and> (\<forall>g xs. mset (fst (shuffle rt g xs)) = mset xs)"

text \<open>What a run does to the outside, in order: the client calls and the printed lines.\<close>

datatype line =
    SkippingRoomError string string
  | SkippingRoomMatch string
  | UpdatedRoom string
  | CouldNotUpdate string string
  | DryRun string
  | Before "string list"
  | After "string list"

datatype event =
    SpaceGetHierarchy string
  | JoinedMembers string
  | RoomGetStateEvent string
  | RoomPutState string string bool "string list"
  | Print line

text \<open>The three ways a stage of the loop body ends: an exception, \<open>continue\<close>, or a value.\<close>

datatype 'a flow = Raise error | Continue | Proceed 'a

subsection \<open>The homeserver's side of \<open>room_put_state\<close>\<close>

text \<open>
  A state event is identified by its type and state key, so a successful
  \<open>room_put_state(space_id, "m.space.child", content, state_key)\<close> replaces the content
  of the space's child event with that key by \<open>{suggested, via}\<close>; the next hierarchy
  fetch shows it. A failing call changes nothing and answers the error response.
\<close>

definition put_child :: "string \<Rightarrow> bool \<Rightarrow> string list \<Rightarrow> child_state \<Rightarrow> child_state" where
  "put_child key sg servers c =
     (if ev_type c = Some ''m.space.child'' \<and> state_key c = Some (PyStr key)
      then c\<lparr>suggested := Some sg, via := Some servers\<rparr>
      else c)"

definition put_hierarchy ::
  "string \<Rightarrow> bool \<Rightarrow> string list \<Rightarrow> string + room_summary list \<Rightarrow> string + room_summary list" where
  "put_hierarchy key sg servers h =
     (case h of
        Inr (space # rest) \<Rightarrow>
          Inr (space\<lparr>children_state := map (put_child key sg servers) (children_state space)\<rparr> # rest)
      | _ \<Rightarrow> h)"

definition room_put_state ::
  "world \<Rightarrow> string \<Rightarrow> bool \<Rightarrow> string list \<Rightarrow> string option \<times> world" where
  "room_put_state w key sg servers =
     (case put_state_error w key of
        Some resp \<Rightarrow> (Some resp, w)
      | None \<Rightarrow> (None, w\<lparr>hierarchy := put_hierarchy key sg servers (hierarchy w)\<rparr>))"

subsection \<open>\<open>update_via\<close> (lines 23-132)\<close>

text \<open>Lines 70-75: the effective level of each member, as a dictionary keyed by user id.\<close>

definition member_level :: "power_levels \<Rightarrow> string \<Rightarrow> int" where
  "member_level pl user_id =
     (case (case users pl of None \<Rightarrow> Map.empty | Some us \<Rightarrow> us) user_id of
        Some level \<Rightarrow> level
      | None \<Rightarrow> (case users_default pl of None \<Rightarrow> 0 | Some d \<Rightarrow> d))"

definition member_levels :: "power_levels \<Rightarrow> string list \<Rightarrow> (string \<times> int) list" where
  "member_levels pl members =
     fold (\<lambda>user_id d. AList.update user_id (member_level pl user_id) d) members []"

text \<open>Lines 83-89: the allow-list filtered by membership, merged with the two selections.\<close>

definition candidate_servers ::
  "config \<Rightarrow> runtime \<Rightarrow> string list \<Rightarrow> string list \<Rightarrow> string list \<Rightarrow> string list" where
  "candidate_servers cfg rt all_servers common_servers highest =
     (let valid_additional_servers =
            filter (\<lambda>server. server \<in> set all_servers) (additional_servers cfg)
      in set_order rt (valid_additional_servers @ common_servers @ highest))"

text \<open>Lines 91-103: the relaxed re-run when the merged list is short of the optimum.\<close>

definition complete_servers ::
  "config \<Rightarrow> runtime \<Rightarrow> string list \<Rightarrow> string list \<Rightarrow> string list" where
  "complete_servers cfg rt all_servers servers =
     (if int (length servers) < optimal_via_servers cfg
         \<and> ignore_requirementrs_to_reach_optimum cfg
      then
        (let server_count = max (most_common_count cfg) (optimal_via_servers cfg);
             common_servers = most_common_servers all_servers server_count 1
         in set_order rt (common_servers @ servers))
      else servers)"

text \<open>
  Lines 47-103 for one room id: the membership fetch, the servers of the members, the
  power-level fetch, and the computed list. The response of the power-level fetch is not
  tested: line 67 reads \<open>.content\<close> from whatever came back, and an error response has
  no such attribute.
\<close>

definition select_servers ::
  "config \<Rightarrow> runtime \<Rightarrow> world \<Rightarrow> string \<Rightarrow> string list flow \<times> event list" where
  "select_servers cfg rt w rid =
     (case joined_members w rid of
        Inl members_resp \<Rightarrow>
          if ignore_errors cfg
          then (Continue, [JoinedMembers rid, Print (SkippingRoomError rid members_resp)])
          else (Raise (RaisedResponse members_resp), [JoinedMembers rid])
      | Inr members \<Rightarrow>
          (case homeservers members of
             Inl e \<Rightarrow> (Raise e, [JoinedMembers rid])
           | Inr all_servers \<Rightarrow>
               (let common_servers =
                      most_common_servers all_servers (most_common_count cfg)
                        (min_users_per_server cfg)
                in case power_levels_event w rid of
                     Inl levels_response \<Rightarrow>
                       (Raise AttributeError, [JoinedMembers rid, RoomGetStateEvent rid])
                   | Inr pl \<Rightarrow>
                       (case highest_level_servers (member_levels pl members) of
                          Inl e \<Rightarrow> (Raise e, [JoinedMembers rid, RoomGetStateEvent rid])
                        | Inr highest \<Rightarrow>
                            (Proceed
                               (complete_servers cfg rt all_servers
                                  (candidate_servers cfg rt all_servers common_servers highest)),
                             [JoinedMembers rid, RoomGetStateEvent rid])))))"

text \<open>
  Lines 105-132: the comparison with the published list, the shuffle, and the write.
  After a failed write with \<open>ignore_errors\<close> the body still prints the two last lines.
\<close>

definition apply_via ::
  "config \<Rightarrow> runtime \<Rightarrow> world \<Rightarrow> child_state \<Rightarrow> string \<Rightarrow> string list
     \<Rightarrow> (error + unit) \<times> world \<times> event list" where
  "apply_via cfg rt w room rid servers =
     (case via room of
        None \<Rightarrow> (Inl KeyError, w, [])
      | Some current \<Rightarrow>
          if set current = set servers
          then (Inr (), w, [Print (SkippingRoomMatch rid)])
          else
            (let (shuffled, g) =
                   (if shuffle_order cfg then shuffle rt (rng w) servers else (servers, rng w));
                 w1 = w\<lparr>rng := g\<rparr>
             in case suggested room of
                  None \<Rightarrow> (Inl KeyError, w1, [])
                | Some sg \<Rightarrow>
                    if \<not> dry_run cfg
                    then
                      (case room_put_state w1 rid sg shuffled of
                         (None, w2) \<Rightarrow>
                           (Inr (), w2,
                            [RoomPutState (space_id cfg) rid sg shuffled,
                             Print (UpdatedRoom rid), Print (Before current),
                             Print (After shuffled)])
                       | (Some resp, w2) \<Rightarrow>
                           if ignore_errors cfg
                           then (Inr (), w2,
                                 [RoomPutState (space_id cfg) rid sg shuffled,
                                  Print (CouldNotUpdate rid resp), Print (Before current),
                                  Print (After shuffled)])
                           else (Inl (ErrorUpdatingState resp), w2,
                                 [RoomPutState (space_id cfg) rid sg shuffled]))
                    else (Inr (), w1,
                          [Print (DryRun rid), Print (Before current),
                           Print (After shuffled)])))"

text \<open>Lines 39-132: the loop body for one entry of \<open>children_state\<close>.\<close>

definition process_room ::
  "config \<Rightarrow> runtime \<Rightarrow> world \<Rightarrow> child_state \<Rightarrow> (error + unit) \<times> world \<times> event list" where
  "process_room cfg rt w room =
     (case ev_type room of
        None \<Rightarrow> (Inl KeyError, w, [])
      | Some t \<Rightarrow>
          if t \<noteq> ''m.space.child'' then (Inr (), w, [])
          else
            (case state_key room of
               None \<Rightarrow> (Inl KeyError, w, [])
             | Some PyNone \<Rightarrow> (Inr (), w, [])
             | Some (PyStr rid) \<Rightarrow>
                 if rid = [] then (Inr (), w, [])
                 else
                   (case select_servers cfg rt w rid of
                      (Raise e, evs) \<Rightarrow> (Inl e, w, evs)
                    | (Continue, evs) \<Rightarrow> (Inr (), w, evs)
                    | (Proceed servers, evs) \<Rightarrow>
                        (case apply_via cfg rt w room rid servers of
                           (r, w', evs') \<Rightarrow> (r, w', evs @ evs')))))"

text \<open>
  Line 38: the loop over the entries fetched at the start. An exception ends the loop;
  the writes change the homeserver, not the list being iterated.
\<close>

fun update_rooms ::
  "config \<Rightarrow> runtime \<Rightarrow> world \<Rightarrow> child_state list \<Rightarrow> (error + unit) \<times> world \<times> event list" where
  "update_rooms cfg rt w [] = (Inr (), w, [])"
| "update_rooms cfg rt w (room # rooms) =
     (case process_room cfg rt w room of
        (Inl e, w', evs) \<Rightarrow> (Inl e, w', evs)
      | (Inr u, w', evs) \<Rightarrow>
          (case update_rooms cfg rt w' rooms of
             (r, w'', evs') \<Rightarrow> (r, w'', evs @ evs')))"

text \<open>Lines 29-35: the hierarchy fetch, its test, and \<open>rooms[0]\<close>; then the loop.\<close>

definition update_via ::
  "config \<Rightarrow> runtime \<Rightarrow> world \<Rightarrow> (error + unit) \<times> world \<times> event list" where
  "update_via cfg rt w =
     (case hierarchy w of
        Inl rooms_resp \<Rightarrow>
          (Inl (ErrorGettingSpace rooms_resp), w, [SpaceGetHierarchy (space_id cfg)])
      | Inr rooms \<Rightarrow>
          (case rooms of
             [] \<Rightarrow> (Inl IndexError, w, [SpaceGetHierarchy (space_id cfg)])
           | space # _ \<Rightarrow>
               (case update_rooms cfg rt w (children_state space) of
                  (r, w', evs) \<Rightarrow> (r, w', SpaceGetHierarchy (space_id cfg) # evs))))"

subsection \<open>Notions used to state the properties\<close>

text \<open>
  The room id of an entry that passes the two tests at lines 39-45: its type is
  \<open>m.space.child\<close> and its state key is a non-empty string.
\<close>

definition child_room_id :: "child_state \<Rightarrow> string option" where
  "child_room_id room =
     (case (ev_type room, state_key room) of
        (Some t, Some (PyStr rid)) \<Rightarrow>
          if t = ''m.space.child'' \<and> rid \<noteq> [] then Some rid else None
      | _ \<Rightarrow> None)"

text \<open>What a run shows for an entry whose list already matches: two fetches and the line.\<close>

definition already_match_events :: "child_state \<Rightarrow> event list" where
  "already_match_events room =
     (case child_room_id room of
        None \<Rightarrow> []
      | Some rid \<Rightarrow> [JoinedMembers rid, RoomGetStateEvent rid, Print (SkippingRoomMatch rid)])"

text \<open>The two lines that report an ignored failure (lines 51 and 126).\<close>

fun error_line :: "event \<Rightarrow> bool" where
  "error_line (Print (SkippingRoomError rid resp)) = True"
| "error_line (Print (CouldNotUpdate rid resp)) = True"
| "error_line ev = False"

fun is_put :: "event \<Rightarrow> bool" where
  "is_put (RoomPutState sid rid sg servers) = True"
| "is_put ev = False"

text \<open>
  The set of servers computed for a room id, read off a run of lines 47-103 under one
  fixed enumeration order; \<open>None\<close> when those lines do not reach a list.
\<close>

definition plain_runtime :: runtime where
  "plain_runtime = \<lparr>set_order = remdups, shuffle = (\<lambda>g xs. (xs, g))\<rparr>"

definition computed_set :: "config \<Rightarrow> world \<Rightarrow> string \<Rightarrow> string set option" where
  "computed_set cfg w rid =
     (case fst (select_servers cfg plain_runtime w rid) of
        Proceed servers \<Rightarrow> Some (set servers)
      | _ \<Rightarrow> None)"

text \<open>
  A written list \<open>v\<close> for room id \<open>k\<close> is accounted for by an entry: the entry has
  that room id, its published list differs as a set from the list computed for \<open>k\<close>,
  and \<open>v\<close> is a rearrangement of the computed list.
\<close>

definition written_for ::
  "config \<Rightarrow> runtime \<Rightarrow> world \<Rightarrow> child_state \<Rightarrow> string \<Rightarrow> string list \<Rightarrow> bool" where
  "written_for cfg rt w room k v \<longleftrightarrow>
     child_room_id room = Some k
     \<and> (case fst (select_servers cfg rt w k) of
          Proceed servers \<Rightarrow>
            (case via room of
               Some current \<Rightarrow> set current \<noteq> set servers \<and> mset v = mset servers
             | None \<Rightarrow> False)
        | _ \<Rightarrow> False)"

text \<open>
  An entry is settled when a run leaves it alone: the two tests at lines 39-45 skip it,
  or its published list equals, as a set, the set computed for its room id.
\<close>

definition settled :: "config \<Rightarrow> world \<Rightarrow> child_state \<Rightarrow> bool" where
  "settled cfg w room \<longleftrightarrow>
     (case ev_type room of
        None \<Rightarrow> False
      | Some t \<Rightarrow>
          if t \<noteq> ''m.space.child'' then True
          else
            (case state_key room of
               None \<Rightarrow> False
             | Some PyNone \<Rightarrow> True
             | Some (PyStr rid) \<Rightarrow>
                 if rid = [] then True
                 else
                   (case via room of
                      None \<Rightarrow> False
                    | Some current \<Rightarrow> computed_set cfg w rid = Some (set current))))"

text \<open>
  How an entry of the space looks after a run that wrote for the room ids in \<open>K\<close>: type
  and state key are kept; an entry with a room id in \<open>K\<close> publishes a list whose set is
  the computed one; every other entry is as it was.
\<close>

definition updated :: "config \<Rightarrow> world \<Rightarrow> string set \<Rightarrow> child_state \<Rightarrow> child_state \<Rightarrow> bool" where
  "updated cfg w K c c' \<longleftrightarrow>
     ev_type c' = ev_type c \<and> state_key c' = state_key c
     \<and> (case child_room_id c of
          None \<Rightarrow> c' = c
        | Some rid \<Rightarrow>
            if rid \<in> K
            then (case via c' of
                    None \<Rightarrow> False
                  | Some v \<Rightarrow> computed_set cfg w rid = Some (set v))
            else c' = c)"

subsection \<open>Example data\<close>

definition demo_config :: config where
  "demo_config =
     \<lparr>space_id = ''!space:a.org'', most_common_count = 3, min_users_per_server = 2,
      additional_servers = [''extra.org'', ''b.org''], optimal_via_servers = 3,
      ignore_requirementrs_to_reach_optimum = True, shuffle_order = True,
      dry_run = False, ignore_errors = True\<rparr>"

definition demo_runtime :: runtime where
  "demo_runtime = \<lparr>set_order = remdups, shuffle = (\<lambda>g xs. (rev xs, Suc g))\<rparr>"

definition demo_child :: "string \<Rightarrow> string list \<Rightarrow> child_state" where
  "demo_child rid servers =
     \<lparr>ev_type = Some ''m.space.child'', state_key = Some (PyStr rid),
      suggested = Some False, via = Some servers\<rparr>"

definition demo_members :: "string list" where
  "demo_members = [''@u:a.org'', ''@v:a.org'', ''@w:b.org'', ''@x:c.org'']"

definition demo_levels :: power_levels where
  "demo_levels = \<lparr>users = Some [''@x:c.org'' \<mapsto> 100], users_default = Some 0\<rparr>"

definition demo_world :: "child_state list \<Rightarrow> world" where
  "demo_world children =
     \<lparr>hierarchy = Inr [\<lparr>room_id = ''!space:a.org'', children_state = children\<rparr>],
      joined_members = (\<lambda>rid. Inr demo_members),
      power_levels_event = (\<lambda>rid. Inr demo_levels),
      put_state_error = (\<lambda>rid. None),
      rng = 0\<rparr>"

text \<open>
  A room with one member on each of two servers, a configuration that keeps the single
  most common server, and no power levels set: the two servers tie at the cut.
\<close>

definition tie_config :: config where
  "tie_config =
     \<lparr>space_id = ''!space:a.org'', most_common_count = 1, min_users_per_server = 1,
      additional_servers = [], optimal_via_servers = 1,
      ignore_requirementrs_to_reach_optimum = False, shuffle_order = False,
      dry_run = False, ignore_errors = False\<rparr>"

definition tie_world :: "string list \<Rightarrow> string list \<Rightarrow> world" where
  "tie_world members published =
     \<lparr>hierarchy = Inr [\<lparr>room_id = ''!space:a.org'',
                         children_state = [demo_child ''!r1:a.org'' published]\<rparr>],
      joined_members = (\<lambda>rid. Inr members),
      power_levels_event = (\<lambda>rid. Inr \<lparr>users = None, users_default = None\<rparr>),
      put_state_error = (\<lambda>rid. None),
      rng = 0\<rparr>"

section \<open>Properties\<close>

subsection \<open>Homeserver extractor\<close>

lemma str_split_nonempty: "str_split sep s \<noteq> []"
  by (induction s) (auto split: list.splits)

lemma str_split_no_sep: "sep \<notin> set s \<Longrightarrow> str_split sep s = [s]"
  by (induction s) auto

lemma str_split_at_sep:
  "sep \<in> set s \<Longrightarrow>
   str_split sep s =
     takeWhile (\<lambda>c. c \<noteq> sep) s # str_split sep (tl (dropWhile (\<lambda>c. c \<noteq> sep) s))"
proof (induction s)
  case Nil
  then show ?case by simp
next
  case (Cons c cs)
  show ?case
  proof (cases "c = sep")
    case True
    then show ?thesis by simp
  next
    case False
    with Cons.prems have "sep \<in> set cs" by simp
    from Cons.IH [OF this] False show ?thesis by simp
  qed
qed

lemma str_split_hd: "hd (str_split sep s) = takeWhile (\<lambda>c. c \<noteq> sep) s"
proof (cases "sep \<in> set s")
  case True
  then show ?thesis by (simp add: str_split_at_sep)
next
  case False
  then have tw: "takeWhile (\<lambda>c. c \<noteq> sep) s = s"
    by (auto simp: takeWhile_eq_all_conv)
  show ?thesis unfolding str_split_no_sep [OF False] tw by simp
qed

lemma get_user_homeserver_no_colon:
  "CHR '':'' \<notin> set user_id \<Longrightarrow> get_user_homeserver user_id = Inl IndexError"
  by (simp add: get_user_homeserver_def str_split_no_sep)

lemma get_user_homeserver_colon:
  assumes "CHR '':'' \<in> set user_id"
  shows "get_user_homeserver user_id =
           Inr (takeWhile (\<lambda>c. c \<noteq> CHR '':'') (tl (dropWhile (\<lambda>c. c \<noteq> CHR '':'') user_id)))"
proof -
  let ?rest = "tl (dropWhile (\<lambda>c. c \<noteq> CHR '':'') user_id)"
  obtain w ws where ws: "str_split (CHR '':'') ?rest = w # ws"
    using str_split_nonempty [of "CHR '':''" ?rest] by (cases "str_split (CHR '':'') ?rest") auto
  have "w = takeWhile (\<lambda>c. c \<noteq> CHR '':'') ?rest"
    using str_split_hd [of "CHR '':''" ?rest] ws by simp
  then show ?thesis
    using ws by (simp add: get_user_homeserver_def str_split_at_sep [OF assms])
qed

text \<open>
  C10. An identifier with two or more \<open>:\<close> yields the piece between the first and the
  second \<open>:\<close>, so a port after the server name is dropped; the call fails, with
  IndexError, exactly for the identifiers that contain no \<open>:\<close>.
\<close>

theorem get_user_homeserver_second_piece:
  "(2 \<le> count_list user_id (CHR '':'') \<longrightarrow>
      get_user_homeserver user_id =
        Inr (takeWhile (\<lambda>c. c \<noteq> CHR '':'') (tl (dropWhile (\<lambda>c. c \<noteq> CHR '':'') user_id))))
   \<and> ((\<exists>e. get_user_homeserver user_id = Inl e) \<longleftrightarrow> CHR '':'' \<notin> set user_id)
   \<and> (CHR '':'' \<notin> set user_id \<longrightarrow> get_user_homeserver user_id = Inl IndexError)"
proof (cases "CHR '':'' \<in> set user_id")
  case True
  then show ?thesis by (simp add: get_user_homeserver_colon)
next
  case False
  then have "count_list user_id (CHR '':'') = 0" by (simp add: count_list_0_iff)
  with False show ?thesis by (simp add: get_user_homeserver_no_colon)
qed

theorem get_user_homeserver_second_piece_witness:
  "2 \<le> count_list ''@user:example.org:8448'' (CHR '':'')
   \<and> get_user_homeserver ''@user:example.org:8448'' = Inr ''example.org''
   \<and> CHR '':'' \<notin> set ''example.org''
   \<and> get_user_homeserver ''example.org'' = Inl IndexError"
  using get_user_homeserver_second_piece [of "''@user:example.org:8448''"]
        get_user_homeserver_second_piece [of "''example.org''"]
  by simp

subsection \<open>Frequency selector\<close>

lemma Counter_step_keys:
  "distinct (map fst c) \<Longrightarrow>
   distinct (map fst (fold (\<lambda>x c. AList.update x ((case map_of c x of None \<Rightarrow> 0 | Some k \<Rightarrow> k) + 1) c) lst c))"
  by (induction lst arbitrary: c) (auto simp: distinct_update)

lemma Counter_step_map_of:
  "map_of (fold (\<lambda>x c. AList.update x ((case map_of c x of None \<Rightarrow> 0 | Some k \<Rightarrow> k) + 1) c) lst c) y =
     (if y \<in> set lst
      then Some ((case map_of c y of None \<Rightarrow> 0 | Some k \<Rightarrow> k) + int (count_list lst y))
      else map_of c y)"
  by (induction lst arbitrary: c) (auto simp: update_conv')

lemma distinct_Counter: "distinct (map fst (Counter lst))"
  by (simp add: Counter_def Counter_step_keys)

lemma map_of_Counter:
  "map_of (Counter lst) y = (if y \<in> set lst then Some (int (count_list lst y)) else None)"
  by (simp add: Counter_def Counter_step_map_of)

lemma Counter_entry:
  "(item, cnt) \<in> set (Counter lst) \<longleftrightarrow> item \<in> set lst \<and> cnt = int (count_list lst item)"
  using map_of_eq_Some_iff [OF distinct_Counter, of lst item cnt]
  by (auto simp: map_of_Counter split: if_splits)

lemma set_slice_to: "set (slice_to n xs) \<subseteq> set xs"
  by (auto simp: slice_to_def dest: in_set_takeD)

lemma length_slice_to: "0 \<le> n \<Longrightarrow> int (length (slice_to n xs)) \<le> n"
  by (simp add: slice_to_def)

lemma most_common_servers_entry:
  assumes "s \<in> set (most_common_servers lst n m)"
  shows "s \<in> set lst \<and> m \<le> int (count_list lst s)"
proof -
  from assms obtain c where
    "(s, c) \<in> set (slice_to n (sort_key (\<lambda>(item, count). - count)
                  (filter (\<lambda>(item, count). count \<ge> m) (Counter lst))))"
    by (auto simp: most_common_servers_def)
  then have "(s, c) \<in> set (Counter lst)" and "m \<le> c"
    using set_slice_to by fastforce+
  then show ?thesis by (simp add: Counter_entry)
qed

text \<open>
  C5, as stated, for every maximum count: a negative count makes the slice \<open>[:n]\<close> drop
  from the end, so with \<open>n = -1\<close> and two qualifying servers one server is returned,
  which is more than \<open>n\<close>.
\<close>

theorem most_common_servers_negative_count:
  "most_common_servers [''a.org'', ''a.org'', ''b.org'', ''b.org''] (- 1) 2 = [''a.org'']
   \<and> \<not> int (length (most_common_servers [''a.org'', ''a.org'', ''b.org'', ''b.org''] (- 1) 2)) \<le> - 1"
  by (simp add: most_common_servers_def Counter_def slice_to_def)

text \<open>
  C5, amended: for every list of server names and every threshold \<open>m\<close>, every returned
  server occurs at least \<open>m\<close> times in the list, whatever \<open>n\<close> is; and for every
  maximum count \<open>n \<ge> 0\<close> at most \<open>n\<close> servers are returned.
\<close>

theorem most_common_servers_bound:
  "(0 \<le> n \<longrightarrow> int (length (most_common_servers lst n m)) \<le> n)
   \<and> (\<forall>s \<in> set (most_common_servers lst n m). m \<le> int (count_list lst s))"
  using most_common_servers_entry [of _ lst n m]
  by (auto simp: most_common_servers_def length_slice_to)

theorem most_common_servers_bound_witness:
  "(0::int) \<le> 1
   \<and> most_common_servers [''X'', ''Y'', ''X'', ''Y'', ''Z''] 1 2 = [''X'']
   \<and> int (length (most_common_servers [''X'', ''Y'', ''X'', ''Y'', ''Z''] 1 2)) \<le> 1
   \<and> ''X'' \<in> set (most_common_servers [''X'', ''Y'', ''X'', ''Y'', ''Z''] 1 2)
   \<and> 2 \<le> int (count_list [''X'', ''Y'', ''X'', ''Y'', ''Z''] ''X'')"
  using most_common_servers_bound [of 1 "[''X'', ''Y'', ''X'', ''Y'', ''Z'']" 2]
  by (simp add: most_common_servers_def Counter_def slice_to_def)

subsection \<open>Authority selector\<close>

lemma py_max_Max:
  assumes "vs \<noteq> []"
  shows "py_max vs = Inr (Max (set vs))"
proof -
  from assms obtain v rest where "vs = v # rest" by (cases vs) auto
  then show ?thesis using Max.set_eq_fold [of v rest] by (simp add: py_max_def)
qed

lemma homeservers_InrD:
  "homeservers us = Inr ss \<Longrightarrow> list_all2 (\<lambda>u s. get_user_homeserver u = Inr s) us ss"
  by (induction us arbitrary: ss) (auto split: sum.splits)

lemma homeservers_InrI:
  "list_all2 (\<lambda>u s. get_user_homeserver u = Inr s) us ss \<Longrightarrow> homeservers us = Inr ss"
  by (induction rule: list_all2_induct) auto

lemma homeservers_Inr_iff:
  "homeservers us = Inr ss \<longleftrightarrow> list_all2 (\<lambda>u s. get_user_homeserver u = Inr s) us ss"
  using homeservers_InrD homeservers_InrI by blast

text \<open>
  C6. For a non-empty mapping of members to levels: when the highest level is at most 50
  the selector returns the empty list; otherwise it returns exactly the members at the
  highest level, every tie included, in the order of the mapping, and the authority
  servers are those members passed one by one through \<open>get_user_homeserver\<close>.
\<close>

theorem get_highest_level_members_max:
  assumes "levels \<noteq> []"
  shows "(Max (snd ` set levels) \<le> 50 \<longrightarrow>
            get_highest_level_members levels 50 = Inr []
            \<and> highest_level_servers levels = Inr [])
       \<and> (50 < Max (snd ` set levels) \<longrightarrow>
            (\<exists>ms. get_highest_level_members levels 50 = Inr ms
               \<and> ms = map fst (filter (\<lambda>(key, val). val = Max (snd ` set levels)) levels)
               \<and> set ms = {key. (key, Max (snd ` set levels)) \<in> set levels}
               \<and> highest_level_servers levels = homeservers ms
               \<and> (\<forall>ss. highest_level_servers levels = Inr ss \<longleftrightarrow>
                      list_all2 (\<lambda>u s. get_user_homeserver u = Inr s) ms ss)))"
proof -
  from assms have "py_max (map snd levels) = Inr (Max (snd ` set levels))"
    by (simp add: py_max_Max)
  then show ?thesis
    by (force simp: get_highest_level_members_def highest_level_servers_def homeservers_Inr_iff)
qed

theorem get_highest_level_members_max_witness:
  "[(''@a:X'', 100), (''@b:Y'', 100), (''@c:Z'', 0 :: int)] \<noteq> []
   \<and> get_highest_level_members [(''@a:X'', 100), (''@b:Y'', 100), (''@c:Z'', 0)] 50
       = Inr [''@a:X'', ''@b:Y'']
   \<and> highest_level_servers [(''@a:X'', 100), (''@b:Y'', 100), (''@c:Z'', 0)] = Inr [''X'', ''Y'']
   \<and> [(''@a:X'', 50), (''@c:Z'', 0 :: int)] \<noteq> []
   \<and> get_highest_level_members [(''@a:X'', 50), (''@c:Z'', 0)] 50 = Inr []"
  using get_highest_level_members_max [of "[(''@a:X'', 100), (''@b:Y'', 100), (''@c:Z'', 0)]"]
        get_highest_level_members_max [of "[(''@a:X'', 50), (''@c:Z'', 0)]"]
  by (simp add: get_user_homeserver_def)

subsection \<open>Facts about the example data and the runtime\<close>

lemma demo_runtime_ok: "runtime_ok demo_runtime"
  by (simp add: runtime_ok_def demo_runtime_def)

lemma plain_runtime_ok: "runtime_ok plain_runtime"
  by (simp add: runtime_ok_def plain_runtime_def)

lemmas demo_defs = demo_config_def demo_runtime_def demo_child_def demo_world_def
  demo_members_def demo_levels_def

lemmas run_defs = update_via_def process_room_def select_servers_def apply_via_def
  room_put_state_def put_hierarchy_def put_child_def candidate_servers_def complete_servers_def
  member_levels_def member_level_def highest_level_servers_def get_highest_level_members_def
  py_max_def get_user_homeserver_def most_common_servers_def Counter_def slice_to_def

subsection \<open>A failed power-level fetch\<close>

text \<open>
  C2. Two child rooms, \<open>ignore_errors\<close> set, and the power-level fetch of the first room
  answers an error response. The run does not skip the room and go on to the second:
  it ends with AttributeError right after the fetch, with no line printed.
\<close>

theorem update_via_power_levels_failure:
  "update_via (demo_config\<lparr>ignore_errors := True\<rparr>) demo_runtime
     ((demo_world [demo_child ''!r1:a.org'' [''a.org''], demo_child ''!r2:a.org'' [''a.org'']])
        \<lparr>power_levels_event :=
           (\<lambda>rid. if rid = ''!r1:a.org'' then Inl ''M_NOT_FOUND'' else Inr demo_levels)\<rparr>)
   = (Inl AttributeError,
      (demo_world [demo_child ''!r1:a.org'' [''a.org''], demo_child ''!r2:a.org'' [''a.org'']])
        \<lparr>power_levels_event :=
           (\<lambda>rid. if rid = ''!r1:a.org'' then Inl ''M_NOT_FOUND'' else Inr demo_levels)\<rparr>,
      [SpaceGetHierarchy ''!space:a.org'', JoinedMembers ''!r1:a.org'',
       RoomGetStateEvent ''!r1:a.org''])"
  by (simp add: demo_defs run_defs)

subsection \<open>Entries that are skipped\<close>

text \<open>
  C3. An entry whose declared type is not \<open>m.space.child\<close>, or whose type is
  \<open>m.space.child\<close> and whose state key is empty or absent (the empty string, or
  \<open>None\<close>), is skipped entirely: no membership fetch, no power-level fetch, no
  selection, no printed line, no change, and the loop goes on with the next entry.
\<close>

theorem process_room_skips:
  assumes "(ev_type room = Some t \<and> t \<noteq> ''m.space.child'')
         \<or> (ev_type room = Some ''m.space.child''
              \<and> (state_key room = Some PyNone \<or> state_key room = Some (PyStr '''')))"
  shows "process_room cfg rt w room = (Inr (), w, [])
       \<and> update_rooms cfg rt w (room # rooms) = update_rooms cfg rt w rooms"
  using assms by (auto simp: process_room_def split: prod.splits)

theorem process_room_skips_witness:
  "ev_type ((demo_child '''' [])\<lparr>ev_type := Some ''m.room.topic''\<rparr>) = Some ''m.room.topic''
   \<and> ''m.room.topic'' \<noteq> ''m.space.child''
   \<and> ev_type (demo_child '''' []) = Some ''m.space.child''
   \<and> state_key (demo_child '''' []) = Some (PyStr '''')
   \<and> state_key ((demo_child '''' [])\<lparr>state_key := Some PyNone\<rparr>) = Some PyNone
   \<and> update_rooms demo_config demo_runtime (demo_world [])
        [(demo_child '''' [])\<lparr>ev_type := Some ''m.room.topic''\<rparr>, demo_child '''' [],
         (demo_child '''' [])\<lparr>state_key := Some PyNone\<rparr>]
      = (Inr (), demo_world [], [])"
  using process_room_skips [of "(demo_child '''' [])\<lparr>ev_type := Some ''m.room.topic''\<rparr>"
          "''m.room.topic''" demo_config demo_runtime "demo_world []"
          "[demo_child '''' [], (demo_child '''' [])\<lparr>state_key := Some PyNone\<rparr>]"]
        process_room_skips [of "demo_child '''' []" "''m.room.topic''" demo_config demo_runtime
          "demo_world []" "[(demo_child '''' [])\<lparr>state_key := Some PyNone\<rparr>]"]
        process_room_skips [of "(demo_child '''' [])\<lparr>state_key := Some PyNone\<rparr>"
          "''m.room.topic''" demo_config demo_runtime "demo_world []" "[]"]
  by (simp add: demo_child_def)

subsection \<open>The computed list\<close>

lemma set_candidate_servers:
  "runtime_ok rt \<Longrightarrow>
   set (candidate_servers cfg rt all_servers common highest) =
     {s \<in> set (additional_servers cfg). s \<in> set all_servers} \<union> set common \<union> set highest"
  by (auto simp: candidate_servers_def runtime_ok_def)

lemma distinct_candidate_servers:
  "runtime_ok rt \<Longrightarrow> distinct (candidate_servers cfg rt all_servers common highest)"
  by (simp add: candidate_servers_def runtime_ok_def Let_def)

lemma set_complete_servers:
  "runtime_ok rt \<Longrightarrow>
   set (complete_servers cfg rt all_servers servers) =
     (if int (length servers) < optimal_via_servers cfg
         \<and> ignore_requirementrs_to_reach_optimum cfg
      then set (most_common_servers all_servers
                  (max (most_common_count cfg) (optimal_via_servers cfg)) 1) \<union> set servers
      else set servers)"
  by (simp add: complete_servers_def runtime_ok_def Let_def)

lemma homeservers_set:
  "homeservers us = Inr ss \<Longrightarrow> s \<in> set ss \<longleftrightarrow> (\<exists>u \<in> set us. get_user_homeserver u = Inr s)"
  by (induction us arbitrary: ss) (auto split: sum.splits)

lemma member_levels_step_keys:
  "fst ` set (fold (\<lambda>user_id d. AList.update user_id (f user_id) d) members d0) =
     set members \<union> fst ` set d0"
  by (induction members arbitrary: d0) (auto simp: dom_update)

lemma member_levels_keys: "fst ` set (member_levels pl members) = set members"
  by (simp add: member_levels_def member_levels_step_keys)

lemma get_highest_level_members_subset:
  "get_highest_level_members levels threshold = Inr ms \<Longrightarrow> set ms \<subseteq> fst ` set levels"
  by (auto simp: get_highest_level_members_def split: sum.splits if_splits)

lemma highest_level_servers_subset:
  assumes "highest_level_servers (member_levels pl members) = Inr highest"
    and "homeservers members = Inr all_servers"
  shows "set highest \<subseteq> set all_servers"
proof
  fix s assume s: "s \<in> set highest"
  from assms(1) obtain ms where
    ms: "get_highest_level_members (member_levels pl members) 50 = Inr ms"
    and hs: "homeservers ms = Inr highest"
    by (auto simp: highest_level_servers_def split: sum.splits)
  from homeservers_set [OF hs] s obtain u where "u \<in> set ms" "get_user_homeserver u = Inr s"
    by auto
  moreover have "set ms \<subseteq> set members"
    using get_highest_level_members_subset [OF ms] by (simp add: member_levels_keys)
  ultimately show "s \<in> set all_servers"
    using homeservers_set [OF assms(2)] by auto
qed

lemma select_servers_Proceed:
  assumes "select_servers cfg rt w rid = (Proceed final, evs)"
  shows "\<exists>members all_servers pl highest.
           joined_members w rid = Inr members
         \<and> homeservers members = Inr all_servers
         \<and> power_levels_event w rid = Inr pl
         \<and> highest_level_servers (member_levels pl members) = Inr highest
         \<and> final = complete_servers cfg rt all_servers
                     (candidate_servers cfg rt all_servers
                        (most_common_servers all_servers (most_common_count cfg)
                           (min_users_per_server cfg)) highest)
         \<and> evs = [JoinedMembers rid, RoomGetStateEvent rid]"
  using assms by (auto simp: select_servers_def Let_def split: sum.splits if_splits)

lemma select_servers_subset:
  assumes "runtime_ok rt"
    and "select_servers cfg rt w rid = (Proceed final, evs)"
    and "joined_members w rid = Inr members"
    and "homeservers members = Inr all_servers"
  shows "set final \<subseteq> set all_servers"
proof -
  from select_servers_Proceed [OF assms(2)] assms(3,4) obtain pl highest where
    hi: "highest_level_servers (member_levels pl members) = Inr highest"
    and fin: "final = complete_servers cfg rt all_servers
                     (candidate_servers cfg rt all_servers
                        (most_common_servers all_servers (most_common_count cfg)
                           (min_users_per_server cfg)) highest)"
    by auto
  have "set highest \<subseteq> set all_servers"
    by (rule highest_level_servers_subset [OF hi assms(4)])
  moreover have "set (most_common_servers all_servers n m) \<subseteq> set all_servers" for n m
    using most_common_servers_entry [of _ all_servers n m] by auto
  ultimately show ?thesis
    unfolding fin by (auto simp: set_complete_servers [OF assms(1)] set_candidate_servers [OF assms(1)] split: if_splits)
qed


lemma child_room_id_Some:
  "child_room_id room = Some rid \<longleftrightarrow>
     ev_type room = Some ''m.space.child'' \<and> state_key room = Some (PyStr rid) \<and> rid \<noteq> []"
  by (auto simp: child_room_id_def split: option.splits py_str.splits)

lemma select_servers_cong:
  "joined_members w' = joined_members w \<Longrightarrow> power_levels_event w' = power_levels_event w \<Longrightarrow>
   select_servers cfg rt w' rid = select_servers cfg rt w rid"
  by (simp add: select_servers_def cong: sum.case_cong)

lemma shuffle_mset:
  "runtime_ok rt \<Longrightarrow>
   mset (fst (if shuffle_order cfg then shuffle rt g servers else (servers, g))) = mset servers"
  by (simp add: runtime_ok_def)

lemma apply_via_put:
  assumes "apply_via cfg rt w room rid servers = (r, w', evs)"
    and "RoomPutState sid k sg v \<in> set evs"
  shows "\<exists>current. via room = Some current \<and> set current \<noteq> set servers \<and> k = rid
           \<and> sid = space_id cfg \<and> \<not> dry_run cfg \<and> suggested room = Some sg
           \<and> v = fst (if shuffle_order cfg then shuffle rt (rng w) servers else (servers, rng w))"
  using assms
  by (auto simp: apply_via_def Let_def split: option.splits if_splits prod.splits)

lemma apply_via_world:
  assumes "apply_via cfg rt w room rid servers = (r, w', evs)"
  shows "joined_members w' = joined_members w \<and> power_levels_event w' = power_levels_event w
         \<and> put_state_error w' = put_state_error w"
  using assms
  by (auto simp: apply_via_def room_put_state_def Let_def split: option.splits if_splits prod.splits)

lemma process_room_world:
  assumes "process_room cfg rt w room = (r, w', evs)"
  shows "joined_members w' = joined_members w \<and> power_levels_event w' = power_levels_event w
         \<and> put_state_error w' = put_state_error w"
  using assms apply_via_world
  by (fastforce simp: process_room_def split: option.splits if_splits prod.splits py_str.splits flow.splits)

lemma update_rooms_world:
  "update_rooms cfg rt w rooms = (r, w', evs) \<Longrightarrow>
   joined_members w' = joined_members w \<and> power_levels_event w' = power_levels_event w
   \<and> put_state_error w' = put_state_error w"
proof (induction rooms arbitrary: w r w' evs)
  case Nil
  then show ?case by simp
next
  case (Cons room rooms)
  obtain r1 w1 evs1 where p: "process_room cfg rt w room = (r1, w1, evs1)"
    by (cases "process_room cfg rt w room") auto
  note pw = process_room_world [OF p]
  show ?case
  proof (cases r1)
    case (Inl e)
    with Cons.prems p pw show ?thesis by simp
  next
    case (Inr u)
    obtain r2 w2 evs2 where u: "update_rooms cfg rt w1 rooms = (r2, w2, evs2)"
      by (cases "update_rooms cfg rt w1 rooms") auto
    from Cons.IH [OF u] pw Cons.prems p Inr u show ?thesis by simp
  qed
qed

lemma process_room_put:
  assumes "process_room cfg rt w room = (r, w', evs)"
    and "RoomPutState sid k sg v \<in> set evs"
  shows "\<exists>servers evs0 current.
           child_room_id room = Some k
         \<and> select_servers cfg rt w k = (Proceed servers, evs0)
         \<and> via room = Some current \<and> set current \<noteq> set servers
         \<and> v = fst (if shuffle_order cfg then shuffle rt (rng w) servers else (servers, rng w))"
proof -
  from assms obtain rid where rid: "child_room_id room = Some rid"
    by (auto simp: process_room_def child_room_id_def
             split: option.splits if_splits py_str.splits)
  then have ty: "ev_type room = Some ''m.space.child''" "state_key room = Some (PyStr rid)" "rid \<noteq> []"
    by (simp_all add: child_room_id_Some)
  obtain f evs0 where sel: "select_servers cfg rt w rid = (f, evs0)"
    by (cases "select_servers cfg rt w rid") auto
  show ?thesis
  proof (cases f)
    case (Raise e)
    with assms sel ty show ?thesis
      by (auto simp: process_room_def select_servers_def Let_def split: sum.splits if_splits)
  next
    case Continue
    with assms sel ty show ?thesis
      by (auto simp: process_room_def select_servers_def Let_def split: sum.splits if_splits)
  next
    case (Proceed servers)
    obtain r2 w2 evs2 where ap: "apply_via cfg rt w room rid servers = (r2, w2, evs2)"
      by (cases "apply_via cfg rt w room rid servers") auto
    from select_servers_Proceed sel Proceed
    have evs0: "evs0 = [JoinedMembers rid, RoomGetStateEvent rid]" by blast
    from assms(1) sel Proceed ap ty have "evs = evs0 @ evs2"
      by (simp add: process_room_def)
    with assms(2) evs0 have "RoomPutState sid k sg v \<in> set evs2" by auto
    from apply_via_put [OF ap this] obtain current where
      "via room = Some current" "set current \<noteq> set servers" "k = rid"
      "v = fst (if shuffle_order cfg then shuffle rt (rng w) servers else (servers, rng w))"
      by blast
    with rid sel Proceed show ?thesis by blast
  qed
qed



lemma written_for_cong:
  "joined_members w' = joined_members w \<Longrightarrow> power_levels_event w' = power_levels_event w \<Longrightarrow>
   written_for cfg rt w' room k v = written_for cfg rt w room k v"
  by (simp add: written_for_def select_servers_cong [of w' w])

lemma process_room_written_for:
  assumes "runtime_ok rt" and "process_room cfg rt w room = (r, w', evs)"
    and "RoomPutState sid k sg v \<in> set evs"
  shows "written_for cfg rt w room k v"
proof -
  from process_room_put [OF assms(2,3)] obtain servers evs0 current where
    h: "child_room_id room = Some k" "select_servers cfg rt w k = (Proceed servers, evs0)"
      "via room = Some current" "set current \<noteq> set servers"
      "v = fst (if shuffle_order cfg then shuffle rt (rng w) servers else (servers, rng w))"
    by blast
  from h(5) have "mset v = mset servers"
    using shuffle_mset [OF assms(1), of cfg "rng w" servers] by simp
  with h(1-4) show ?thesis by (simp add: written_for_def)
qed

subsection \<open>The loop\<close>

lemma update_rooms_written_for:
  "runtime_ok rt \<Longrightarrow> update_rooms cfg rt w rooms = (r, w', evs) \<Longrightarrow>
   RoomPutState sid k sg v \<in> set evs \<Longrightarrow>
   \<exists>room \<in> set rooms. written_for cfg rt w room k v"
proof (induction rooms arbitrary: w r w' evs)
  case Nil
  then show ?case by simp
next
  case (Cons room rooms)
  obtain r1 w1 evs1 where p: "process_room cfg rt w room = (r1, w1, evs1)"
    by (cases "process_room cfg rt w room") auto
  note pw = process_room_world [OF p]
  show ?case
  proof (cases "RoomPutState sid k sg v \<in> set evs1")
    case True
    from process_room_written_for [OF Cons.prems(1) p True] show ?thesis by simp
  next
    case False
    show ?thesis
    proof (cases r1)
      case (Inl e)
      from Cons.prems(2) p Inl have "evs = evs1" by simp
      with Cons.prems(3) False show ?thesis by simp
    next
      case (Inr u)
      obtain r2 w2 evs2 where u: "update_rooms cfg rt w1 rooms = (r2, w2, evs2)"
        by (cases "update_rooms cfg rt w1 rooms") auto
      from Cons.prems(2) p Inr u have "evs = evs1 @ evs2" by simp
      with Cons.prems(3) False have "RoomPutState sid k sg v \<in> set evs2" by simp
      from Cons.IH [OF Cons.prems(1) u this] obtain room' where
        "room' \<in> set rooms" "written_for cfg rt w1 room' k v" by blast
      moreover have "written_for cfg rt w1 room' k v = written_for cfg rt w room' k v"
        using pw by (simp add: written_for_cong [of w1 w])
      ultimately show ?thesis by auto
    qed
  qed
qed

lemma update_rooms_append:
  "update_rooms cfg rt w (xs @ ys) =
     (case update_rooms cfg rt w xs of
        (Inl e, w', evs) \<Rightarrow> (Inl e, w', evs)
      | (Inr u, w', evs) \<Rightarrow>
          (case update_rooms cfg rt w' ys of (r, w'', evs') \<Rightarrow> (r, w'', evs @ evs')))"
  by (induction xs arbitrary: w) (auto split: prod.splits sum.splits)

lemma written_for_mset:
  assumes "written_for cfg rt w room k v"
  shows "\<exists>servers current. child_room_id room = Some k \<and> via room = Some current
           \<and> fst (select_servers cfg rt w k) = Proceed servers
           \<and> set current \<noteq> set servers \<and> mset v = mset servers"
  using assms by (simp add: written_for_def split: flow.splits option.splits)

subsection \<open>Allow-list servers without members\<close>

text \<open>
  C7. A server of \<open>additional_servers\<close> that is the homeserver of no joined member of the
  room is in no list computed for the room, with or without the relaxed re-run, and in no
  list written for it.
\<close>

theorem select_servers_drops_absent_allow_list:
  assumes "runtime_ok rt"
    and "joined_members w rid = Inr members" and "homeservers members = Inr all_servers"
    and "server \<in> set (additional_servers cfg)" and "server \<notin> set all_servers"
  shows "(\<forall>final evs. select_servers cfg rt w rid = (Proceed final, evs) \<longrightarrow> server \<notin> set final)
       \<and> (\<forall>room r w' evs sid sg v.
             process_room cfg rt w room = (r, w', evs) \<and> RoomPutState sid rid sg v \<in> set evs
             \<longrightarrow> server \<notin> set v)"
proof (intro conjI allI impI)
  fix final evs assume "select_servers cfg rt w rid = (Proceed final, evs)"
  from select_servers_subset [OF assms(1) this assms(2,3)] assms(5)
  show "server \<notin> set final" by auto
next
  fix room r w' evs sid sg v
  assume h: "process_room cfg rt w room = (r, w', evs) \<and> RoomPutState sid rid sg v \<in> set evs"
  then have "written_for cfg rt w room rid v"
    using process_room_written_for [OF assms(1)] by blast
  from written_for_mset [OF this] obtain servers where
    s: "fst (select_servers cfg rt w rid) = Proceed servers" "mset v = mset servers"
    by blast
  obtain evs0 where "select_servers cfg rt w rid = (Proceed servers, evs0)"
    using s(1) by (cases "select_servers cfg rt w rid") auto
  from select_servers_subset [OF assms(1) this assms(2,3)]
  have "set servers \<subseteq> set all_servers" .
  moreover from s(2) have "set v = set servers" by (rule mset_eq_setD)
  ultimately show "server \<notin> set v" using assms(5) by auto
qed

theorem select_servers_drops_absent_allow_list_witness:
  "runtime_ok demo_runtime
   \<and> joined_members (demo_world [demo_child ''!r1:a.org'' [''a.org'']]) ''!r1:a.org''
       = Inr demo_members
   \<and> homeservers demo_members = Inr [''a.org'', ''a.org'', ''b.org'', ''c.org'']
   \<and> ''extra.org'' \<in> set (additional_servers (demo_config\<lparr>optimal_via_servers := 5\<rparr>))
   \<and> ''extra.org'' \<notin> set [''a.org'', ''a.org'', ''b.org'', ''c.org'']
   \<and> select_servers (demo_config\<lparr>optimal_via_servers := 5\<rparr>) demo_runtime
        (demo_world [demo_child ''!r1:a.org'' [''a.org'']]) ''!r1:a.org''
       = (Proceed [''b.org'', ''a.org'', ''c.org''],
          [JoinedMembers ''!r1:a.org'', RoomGetStateEvent ''!r1:a.org''])
   \<and> ''extra.org'' \<notin> set [''b.org'', ''a.org'', ''c.org'']"
  using select_servers_drops_absent_allow_list [OF demo_runtime_ok,
          of "demo_world [demo_child ''!r1:a.org'' [''a.org'']]" "''!r1:a.org''" demo_members
             "[''a.org'', ''a.org'', ''b.org'', ''c.org'']" "''extra.org''"
             "demo_config\<lparr>optimal_via_servers := 5\<rparr>", THEN conjunct1]
  by (simp add: runtime_ok_def demo_defs select_servers_def candidate_servers_def
        complete_servers_def member_levels_def member_level_def highest_level_servers_def
        get_highest_level_members_def py_max_def get_user_homeserver_def
        most_common_servers_def Counter_def slice_to_def)

subsection \<open>The relaxed re-run\<close>

text \<open>
  C8. When the merged list \<open>prior\<close> is shorter than \<open>optimal_via_servers\<close> and the
  relaxation flag is set, the computed list is the enumeration of the frequency selection
  with \<open>n = max most_common_servers optimal_via_servers\<close> and threshold 1, joined with
  \<open>prior\<close>: as sets, the union of the two, so \<open>prior\<close> is contained in it. The result
  can still be shorter than the optimum: some run has such a result.
\<close>

theorem select_servers_relaxed_rerun:
  assumes "runtime_ok rt"
    and "joined_members w rid = Inr members" and "homeservers members = Inr all_servers"
    and "power_levels_event w rid = Inr pl"
    and "highest_level_servers (member_levels pl members) = Inr highest"
    and "prior = candidate_servers cfg rt all_servers
                   (most_common_servers all_servers (most_common_count cfg)
                      (min_users_per_server cfg)) highest"
    and "int (length prior) < optimal_via_servers cfg"
    and "ignore_requirementrs_to_reach_optimum cfg"
  shows "(\<exists>final. fst (select_servers cfg rt w rid) = Proceed final
            \<and> final = set_order rt
                (most_common_servers all_servers
                   (max (most_common_count cfg) (optimal_via_servers cfg)) 1 @ prior)
            \<and> set final =
                set (most_common_servers all_servers
                       (max (most_common_count cfg) (optimal_via_servers cfg)) 1) \<union> set prior
            \<and> set prior \<subseteq> set final)
       \<and> (\<exists>cfg' rt' w' rid' final'.
            runtime_ok rt' \<and> ignore_requirementrs_to_reach_optimum cfg'
            \<and> fst (select_servers cfg' rt' w' rid') = Proceed final'
            \<and> int (length final') < optimal_via_servers cfg')"
proof
  have "fst (select_servers cfg rt w rid) = Proceed (complete_servers cfg rt all_servers prior)"
    using assms(2-6) by (simp add: select_servers_def)
  moreover have "complete_servers cfg rt all_servers prior =
      set_order rt (most_common_servers all_servers
                      (max (most_common_count cfg) (optimal_via_servers cfg)) 1 @ prior)"
    using assms(7,8) by (simp add: complete_servers_def)
  moreover have "set (set_order rt xs) = set xs" for xs
    using assms(1) by (simp add: runtime_ok_def)
  ultimately show "\<exists>final. fst (select_servers cfg rt w rid) = Proceed final
            \<and> final = set_order rt
                (most_common_servers all_servers
                   (max (most_common_count cfg) (optimal_via_servers cfg)) 1 @ prior)
            \<and> set final =
                set (most_common_servers all_servers
                       (max (most_common_count cfg) (optimal_via_servers cfg)) 1) \<union> set prior
            \<and> set prior \<subseteq> set final"
    by auto
next
  have "ignore_requirementrs_to_reach_optimum (demo_config\<lparr>optimal_via_servers := 5\<rparr>)
      \<and> fst (select_servers (demo_config\<lparr>optimal_via_servers := 5\<rparr>) demo_runtime
               (demo_world []) ''!r1:a.org'') = Proceed [''b.org'', ''a.org'', ''c.org'']
      \<and> int (length [''b.org'', ''a.org'', ''c.org''])
          < optimal_via_servers (demo_config\<lparr>optimal_via_servers := 5\<rparr>)"
    by (simp add: demo_defs run_defs)
  with demo_runtime_ok show "\<exists>cfg' rt' w' rid' final'.
            runtime_ok rt' \<and> ignore_requirementrs_to_reach_optimum cfg'
            \<and> fst (select_servers cfg' rt' w' rid') = Proceed final'
            \<and> int (length final') < optimal_via_servers cfg'"
    by blast
qed

theorem select_servers_relaxed_rerun_witness:
  "runtime_ok demo_runtime
   \<and> joined_members (demo_world []) ''!r1:a.org'' = Inr demo_members
   \<and> homeservers demo_members = Inr [''a.org'', ''a.org'', ''b.org'', ''c.org'']
   \<and> power_levels_event (demo_world []) ''!r1:a.org'' = Inr demo_levels
   \<and> highest_level_servers (member_levels demo_levels demo_members) = Inr [''c.org'']
   \<and> [''a.org'', ''c.org''] =
       candidate_servers (demo_config\<lparr>optimal_via_servers := 5, additional_servers := []\<rparr>)
         demo_runtime [''a.org'', ''a.org'', ''b.org'', ''c.org'']
         (most_common_servers [''a.org'', ''a.org'', ''b.org'', ''c.org''] 3 2) [''c.org'']
   \<and> int (length [''a.org'', ''c.org'']) < 5
   \<and> most_common_servers [''a.org'', ''a.org'', ''b.org'', ''c.org''] (max 3 5) 1
       = [''a.org'', ''b.org'', ''c.org'']
   \<and> fst (select_servers (demo_config\<lparr>optimal_via_servers := 5, additional_servers := []\<rparr>)
             demo_runtime (demo_world []) ''!r1:a.org'')
       = Proceed [''b.org'', ''a.org'', ''c.org'']
   \<and> set [''a.org'', ''c.org''] \<subseteq> set [''b.org'', ''a.org'', ''c.org'']
   \<and> int (length [''b.org'', ''a.org'', ''c.org'']) < 5"
  using select_servers_relaxed_rerun [OF demo_runtime_ok,
          of "demo_world []" "''!r1:a.org''" demo_members
             "[''a.org'', ''a.org'', ''b.org'', ''c.org'']" demo_levels "[''c.org'']"
             "[''a.org'', ''c.org'']"
             "demo_config\<lparr>optimal_via_servers := 5, additional_servers := []\<rparr>",
          THEN conjunct1]
  by (simp add: runtime_ok_def demo_defs select_servers_def candidate_servers_def
        complete_servers_def member_levels_def member_level_def highest_level_servers_def
        get_highest_level_members_def py_max_def get_user_homeserver_def
        most_common_servers_def Counter_def slice_to_def)

subsection \<open>Writes happen only on a difference\<close>

lemma process_room_match:
  assumes "child_room_id room = Some rid"
    and "fst (select_servers cfg rt w rid) = Proceed servers"
    and "via room = Some current" and "set current = set servers"
  shows "process_room cfg rt w room =
           (Inr (), w, [JoinedMembers rid, RoomGetStateEvent rid, Print (SkippingRoomMatch rid)])"
proof -
  obtain evs0 where sel: "select_servers cfg rt w rid = (Proceed servers, evs0)"
    using assms(2) by (cases "select_servers cfg rt w rid") auto
  from select_servers_Proceed [OF sel]
  have evs0: "evs0 = [JoinedMembers rid, RoomGetStateEvent rid]" by blast
  from assms(1) have "ev_type room = Some ''m.space.child''"
    "state_key room = Some (PyStr rid)" "rid \<noteq> []"
    by (simp_all add: child_room_id_Some)
  with sel evs0 assms(3,4) show ?thesis
    by (simp add: process_room_def apply_via_def)
qed

text \<open>
  C4. An entry whose published list equals the computed list as a set is reported as
  already matching: two fetches, the line, no write, and nothing changed. And whatever
  a run writes for a room id is accounted for by an entry of the space with that room id
  whose published list differs, as a set, from the list computed for the room; the
  written list is a rearrangement of the computed one.
\<close>

theorem update_via_writes_only_on_difference:
  "(child_room_id room = Some rid \<and> fst (select_servers cfg rt w rid) = Proceed servers
      \<and> via room = Some current \<and> set current = set servers
    \<longrightarrow> process_room cfg rt w room =
          (Inr (), w, [JoinedMembers rid, RoomGetStateEvent rid, Print (SkippingRoomMatch rid)]))
   \<and> (runtime_ok rt \<and> update_via cfg rt w = (r, w', evs) \<and> RoomPutState sid k sg v \<in> set evs
    \<longrightarrow> (\<exists>space others entry computed published.
            hierarchy w = Inr (space # others) \<and> entry \<in> set (children_state space)
          \<and> child_room_id entry = Some k \<and> via entry = Some published
          \<and> fst (select_servers cfg rt w k) = Proceed computed
          \<and> set published \<noteq> set computed \<and> mset v = mset computed))"
proof (intro conjI impI)
  assume "child_room_id room = Some rid \<and> fst (select_servers cfg rt w rid) = Proceed servers
      \<and> via room = Some current \<and> set current = set servers"
  then show "process_room cfg rt w room =
          (Inr (), w, [JoinedMembers rid, RoomGetStateEvent rid, Print (SkippingRoomMatch rid)])"
    using process_room_match by blast
next
  assume h: "runtime_ok rt \<and> update_via cfg rt w = (r, w', evs) \<and> RoomPutState sid k sg v \<in> set evs"
  then obtain space others where hi: "hierarchy w = Inr (space # others)"
    by (auto simp: update_via_def split: sum.splits list.splits)
  obtain r0 w0 evs0 where u: "update_rooms cfg rt w (children_state space) = (r0, w0, evs0)"
    by (cases "update_rooms cfg rt w (children_state space)") auto
  with h hi have "evs = SpaceGetHierarchy (space_id cfg) # evs0"
    by (simp add: update_via_def)
  with h have "RoomPutState sid k sg v \<in> set evs0" by auto
  from update_rooms_written_for [OF _ u this] h obtain entry where
    e: "entry \<in> set (children_state space)" "written_for cfg rt w entry k v" by blast
  from written_for_mset [OF e(2)] obtain computed published where
    "child_room_id entry = Some k" "via entry = Some published"
    "fst (select_servers cfg rt w k) = Proceed computed"
    "set published \<noteq> set computed" "mset v = mset computed" by blast
  with hi e(1) show "\<exists>space others entry computed published.
            hierarchy w = Inr (space # others) \<and> entry \<in> set (children_state space)
          \<and> child_room_id entry = Some k \<and> via entry = Some published
          \<and> fst (select_servers cfg rt w k) = Proceed computed
          \<and> set published \<noteq> set computed \<and> mset v = mset computed"
    by blast
qed

theorem update_via_writes_only_on_difference_witness:
  "child_room_id (demo_child ''!r1:a.org'' [''c.org'', ''b.org'', ''a.org'']) = Some ''!r1:a.org''
   \<and> fst (select_servers demo_config demo_runtime
            (demo_world [demo_child ''!r1:a.org'' [''c.org'', ''b.org'', ''a.org'']]) ''!r1:a.org'')
       = Proceed [''b.org'', ''a.org'', ''c.org'']
   \<and> set [''c.org'', ''b.org'', ''a.org''] = set [''b.org'', ''a.org'', ''c.org'']
   \<and> process_room demo_config demo_runtime
        (demo_world [demo_child ''!r1:a.org'' [''c.org'', ''b.org'', ''a.org'']])
        (demo_child ''!r1:a.org'' [''c.org'', ''b.org'', ''a.org''])
       = (Inr (), demo_world [demo_child ''!r1:a.org'' [''c.org'', ''b.org'', ''a.org'']],
          [JoinedMembers ''!r1:a.org'', RoomGetStateEvent ''!r1:a.org'',
           Print (SkippingRoomMatch ''!r1:a.org'')])
   \<and> runtime_ok demo_runtime
   \<and> update_via demo_config demo_runtime (demo_world [demo_child ''!r1:a.org'' [''a.org'']])
       = (Inr (),
          (demo_world [demo_child ''!r1:a.org'' [''c.org'', ''a.org'', ''b.org'']])\<lparr>rng := 1\<rparr>,
          [SpaceGetHierarchy ''!space:a.org'', JoinedMembers ''!r1:a.org'',
           RoomGetStateEvent ''!r1:a.org'',
           RoomPutState ''!space:a.org'' ''!r1:a.org'' False [''c.org'', ''a.org'', ''b.org''],
           Print (UpdatedRoom ''!r1:a.org''), Print (Before [''a.org'']),
           Print (After [''c.org'', ''a.org'', ''b.org''])])
   \<and> set [''a.org''] \<noteq> set [''b.org'', ''a.org'', ''c.org'']
   \<and> mset [''c.org'', ''a.org'', ''b.org''] = mset [''b.org'', ''a.org'', ''c.org'']"
proof -
  have a: "child_room_id (demo_child ''!r1:a.org'' [''c.org'', ''b.org'', ''a.org'']) = Some ''!r1:a.org''"
    by (simp add: child_room_id_def demo_child_def)
  have b: "fst (select_servers demo_config demo_runtime
            (demo_world [demo_child ''!r1:a.org'' [''c.org'', ''b.org'', ''a.org'']]) ''!r1:a.org'')
       = Proceed [''b.org'', ''a.org'', ''c.org'']"
    by (simp add: demo_defs run_defs)
  have c: "via (demo_child ''!r1:a.org'' [''c.org'', ''b.org'', ''a.org''])
       = Some [''c.org'', ''b.org'', ''a.org'']"
    by (simp add: demo_child_def)
  have d: "set [''c.org'', ''b.org'', ''a.org''] = set [''b.org'', ''a.org'', ''c.org'']"
    by (simp add: insert_commute)
  have e: "update_via demo_config demo_runtime (demo_world [demo_child ''!r1:a.org'' [''a.org'']])
       = (Inr (),
          (demo_world [demo_child ''!r1:a.org'' [''c.org'', ''a.org'', ''b.org'']])\<lparr>rng := 1\<rparr>,
          [SpaceGetHierarchy ''!space:a.org'', JoinedMembers ''!r1:a.org'',
           RoomGetStateEvent ''!r1:a.org'',
           RoomPutState ''!space:a.org'' ''!r1:a.org'' False [''c.org'', ''a.org'', ''b.org''],
           Print (UpdatedRoom ''!r1:a.org''), Print (Before [''a.org'']),
           Print (After [''c.org'', ''a.org'', ''b.org''])])"
    by (simp add: demo_defs run_defs)
  have f: "RoomPutState ''!space:a.org'' ''!r1:a.org'' False [''c.org'', ''a.org'', ''b.org'']
       \<in> set [SpaceGetHierarchy ''!space:a.org'', JoinedMembers ''!r1:a.org'',
           RoomGetStateEvent ''!r1:a.org'',
           RoomPutState ''!space:a.org'' ''!r1:a.org'' False [''c.org'', ''a.org'', ''b.org''],
           Print (UpdatedRoom ''!r1:a.org''), Print (Before [''a.org'']),
           Print (After [''c.org'', ''a.org'', ''b.org''])]"
    by simp
  have g: "set [''a.org''] \<noteq> set [''b.org'', ''a.org'', ''c.org'']" by simp
  have h: "mset [''c.org'', ''a.org'', ''b.org''] = mset [''b.org'', ''a.org'', ''c.org'']"
    by simp
  from update_via_writes_only_on_difference
          [of "demo_child ''!r1:a.org'' [''c.org'', ''b.org'', ''a.org'']" "''!r1:a.org''"
              demo_config demo_runtime
              "demo_world [demo_child ''!r1:a.org'' [''c.org'', ''b.org'', ''a.org'']]"
              "[''b.org'', ''a.org'', ''c.org'']" "[''c.org'', ''b.org'', ''a.org'']",
           THEN conjunct1] a b c d
  have p: "process_room demo_config demo_runtime
        (demo_world [demo_child ''!r1:a.org'' [''c.org'', ''b.org'', ''a.org'']])
        (demo_child ''!r1:a.org'' [''c.org'', ''b.org'', ''a.org''])
       = (Inr (), demo_world [demo_child ''!r1:a.org'' [''c.org'', ''b.org'', ''a.org'']],
          [JoinedMembers ''!r1:a.org'', RoomGetStateEvent ''!r1:a.org'',
           Print (SkippingRoomMatch ''!r1:a.org'')])"
    by blast
  from a b d p demo_runtime_ok e g h show ?thesis by blast
qed


subsection \<open>Failures of the client calls\<close>

lemma process_room_members_failure:
  assumes "child_room_id room = Some rid" and "joined_members w rid = Inl resp"
  shows "process_room cfg rt w room =
           (if ignore_errors cfg
            then (Inr (), w, [JoinedMembers rid, Print (SkippingRoomError rid resp)])
            else (Inl (RaisedResponse resp), w, [JoinedMembers rid]))"
  using assms by (simp add: child_room_id_Some process_room_def select_servers_def)

lemma process_room_put_failure:
  assumes "child_room_id room = Some rid"
    and "select_servers cfg rt w rid = (Proceed servers, evs0)"
    and "via room = Some current" and "set current \<noteq> set servers"
    and "suggested room = Some sg" and "\<not> dry_run cfg"
    and "put_state_error w rid = Some resp"
    and "shuffled = fst (if shuffle_order cfg then shuffle rt (rng w) servers else (servers, rng w))"
    and "w2 = w\<lparr>rng := snd (if shuffle_order cfg then shuffle rt (rng w) servers
                               else (servers, rng w))\<rparr>"
  shows "process_room cfg rt w room =
           (if ignore_errors cfg
            then (Inr (), w2,
                  evs0 @ [RoomPutState (space_id cfg) rid sg shuffled,
                          Print (CouldNotUpdate rid resp), Print (Before current),
                          Print (After shuffled)])
            else (Inl (ErrorUpdatingState resp), w2,
                  evs0 @ [RoomPutState (space_id cfg) rid sg shuffled]))"
proof -
  from assms(1) have "ev_type room = Some ''m.space.child''"
    "state_key room = Some (PyStr rid)" "rid \<noteq> []"
    by (simp_all add: child_room_id_Some)
  with assms(2-9) show ?thesis
    by (simp add: process_room_def apply_via_def room_put_state_def split: prod.splits)
qed

lemma update_rooms_step:
  assumes "update_rooms cfg rt w pre = (Inr (), w1, evs1)"
  shows "update_rooms cfg rt w (pre @ room # rooms) =
           (case process_room cfg rt w1 room of
              (Inl e, w2, evs2) \<Rightarrow> (Inl e, w2, evs1 @ evs2)
            | (Inr u, w2, evs2) \<Rightarrow>
                (case update_rooms cfg rt w2 rooms of
                   (r, w3, evs3) \<Rightarrow> (r, w3, evs1 @ evs2 @ evs3)))"
  using assms by (simp add: update_rooms_append split: prod.splits sum.splits)

lemma update_via_step:
  assumes "hierarchy w = Inr (space # others)"
    and "children_state space = pre @ room # rooms"
    and "update_rooms cfg rt w pre = (Inr (), w1, evs1)"
  shows "update_via cfg rt w =
           (case process_room cfg rt w1 room of
              (Inl e, w2, evs2) \<Rightarrow> (Inl e, w2, SpaceGetHierarchy (space_id cfg) # evs1 @ evs2)
            | (Inr u, w2, evs2) \<Rightarrow>
                (case update_rooms cfg rt w2 rooms of
                   (r, w3, evs3) \<Rightarrow>
                     (r, w3, SpaceGetHierarchy (space_id cfg) # evs1 @ evs2 @ evs3)))"
  using assms(1,2) update_rooms_step [OF assms(3), of room rooms]
  by (simp add: update_via_def split: prod.splits sum.splits)

text \<open>
  C9. A failed hierarchy fetch ends the run with \<open>ErrorGettingSpace\<close> whatever the
  configuration says. A failed membership fetch, or a failed write, for an entry reached
  by the loop ends the run with an exception when \<open>ignore_errors\<close> is off; when it is
  on, the failure is printed, the entry is left, and the loop goes on with the entries
  after it.
\<close>

theorem update_via_failures:
  "(hierarchy w = Inl resp
    \<longrightarrow> update_via cfg rt w =
          (Inl (ErrorGettingSpace resp), w, [SpaceGetHierarchy (space_id cfg)]))
   \<and> (hierarchy w = Inr (space # others) \<and> children_state space = pre @ room # rooms
      \<and> update_rooms cfg rt w pre = (Inr (), w1, evs1)
      \<and> child_room_id room = Some rid \<and> joined_members w rid = Inl resp
    \<longrightarrow> update_via cfg rt w =
          (if ignore_errors cfg
           then (case update_rooms cfg rt w1 rooms of
                   (r, w3, evs3) \<Rightarrow>
                     (r, w3, SpaceGetHierarchy (space_id cfg) # evs1
                             @ [JoinedMembers rid, Print (SkippingRoomError rid resp)] @ evs3))
           else (Inl (RaisedResponse resp), w1,
                 SpaceGetHierarchy (space_id cfg) # evs1 @ [JoinedMembers rid])))
   \<and> (hierarchy w = Inr (space # others) \<and> children_state space = pre @ room # rooms
      \<and> update_rooms cfg rt w pre = (Inr (), w1, evs1)
      \<and> child_room_id room = Some rid
      \<and> select_servers cfg rt w rid = (Proceed servers, evs0)
      \<and> via room = Some current \<and> set current \<noteq> set servers
      \<and> suggested room = Some sg \<and> \<not> dry_run cfg
      \<and> put_state_error w rid = Some resp
      \<and> shuffled = fst (if shuffle_order cfg then shuffle rt (rng w1) servers
                        else (servers, rng w1))
      \<and> w2 = w1\<lparr>rng := snd (if shuffle_order cfg then shuffle rt (rng w1) servers
                               else (servers, rng w1))\<rparr>
    \<longrightarrow> update_via cfg rt w =
          (if ignore_errors cfg
           then (case update_rooms cfg rt w2 rooms of
                   (r, w3, evs3) \<Rightarrow>
                     (r, w3, SpaceGetHierarchy (space_id cfg) # evs1 @ evs0
                             @ [RoomPutState (space_id cfg) rid sg shuffled,
                                Print (CouldNotUpdate rid resp), Print (Before current),
                                Print (After shuffled)] @ evs3))
           else (Inl (ErrorUpdatingState resp), w2,
                 SpaceGetHierarchy (space_id cfg) # evs1 @ evs0
                 @ [RoomPutState (space_id cfg) rid sg shuffled])))"
proof (intro conjI impI)
  assume "hierarchy w = Inl resp"
  then show "update_via cfg rt w =
          (Inl (ErrorGettingSpace resp), w, [SpaceGetHierarchy (space_id cfg)])"
    by (simp add: update_via_def)
next
  assume h: "hierarchy w = Inr (space # others) \<and> children_state space = pre @ room # rooms
      \<and> update_rooms cfg rt w pre = (Inr (), w1, evs1)
      \<and> child_room_id room = Some rid \<and> joined_members w rid = Inl resp"
  then have pre: "update_rooms cfg rt w pre = (Inr (), w1, evs1)" by simp
  from update_rooms_world [OF pre] h have "joined_members w1 rid = Inl resp" by simp
  with h have "process_room cfg rt w1 room =
           (if ignore_errors cfg
            then (Inr (), w1, [JoinedMembers rid, Print (SkippingRoomError rid resp)])
            else (Inl (RaisedResponse resp), w1, [JoinedMembers rid]))"
    by (simp add: process_room_members_failure)
  moreover from h have "update_via cfg rt w =
           (case process_room cfg rt w1 room of
              (Inl e, w2, evs2) \<Rightarrow> (Inl e, w2, SpaceGetHierarchy (space_id cfg) # evs1 @ evs2)
            | (Inr u, w2, evs2) \<Rightarrow>
                (case update_rooms cfg rt w2 rooms of
                   (r, w3, evs3) \<Rightarrow>
                     (r, w3, SpaceGetHierarchy (space_id cfg) # evs1 @ evs2 @ evs3)))"
    by (simp add: update_via_step)
  ultimately show "update_via cfg rt w =
          (if ignore_errors cfg
           then (case update_rooms cfg rt w1 rooms of
                   (r, w3, evs3) \<Rightarrow>
                     (r, w3, SpaceGetHierarchy (space_id cfg) # evs1
                             @ [JoinedMembers rid, Print (SkippingRoomError rid resp)] @ evs3))
           else (Inl (RaisedResponse resp), w1,
                 SpaceGetHierarchy (space_id cfg) # evs1 @ [JoinedMembers rid]))"
    by simp
next
  assume h: "hierarchy w = Inr (space # others) \<and> children_state space = pre @ room # rooms
      \<and> update_rooms cfg rt w pre = (Inr (), w1, evs1)
      \<and> child_room_id room = Some rid
      \<and> select_servers cfg rt w rid = (Proceed servers, evs0)
      \<and> via room = Some current \<and> set current \<noteq> set servers
      \<and> suggested room = Some sg \<and> \<not> dry_run cfg
      \<and> put_state_error w rid = Some resp
      \<and> shuffled = fst (if shuffle_order cfg then shuffle rt (rng w1) servers
                        else (servers, rng w1))
      \<and> w2 = w1\<lparr>rng := snd (if shuffle_order cfg then shuffle rt (rng w1) servers
                               else (servers, rng w1))\<rparr>"
  then have pre: "update_rooms cfg rt w pre = (Inr (), w1, evs1)" by simp
  note ww = update_rooms_world [OF pre]
  from ww h have sel: "select_servers cfg rt w1 rid = (Proceed servers, evs0)"
    by (simp add: select_servers_cong [of w1 w])
  from ww h have pe: "put_state_error w1 rid = Some resp" by simp
  from h have "process_room cfg rt w1 room =
           (if ignore_errors cfg
            then (Inr (), w2,
                  evs0 @ [RoomPutState (space_id cfg) rid sg shuffled,
                          Print (CouldNotUpdate rid resp), Print (Before current),
                          Print (After shuffled)])
            else (Inl (ErrorUpdatingState resp), w2,
                  evs0 @ [RoomPutState (space_id cfg) rid sg shuffled]))"
    by (intro process_room_put_failure [OF _ sel _ _ _ _ pe]) simp_all
  moreover from h have "update_via cfg rt w =
           (case process_room cfg rt w1 room of
              (Inl e, w2, evs2) \<Rightarrow> (Inl e, w2, SpaceGetHierarchy (space_id cfg) # evs1 @ evs2)
            | (Inr u, w2, evs2) \<Rightarrow>
                (case update_rooms cfg rt w2 rooms of
                   (r, w3, evs3) \<Rightarrow>
                     (r, w3, SpaceGetHierarchy (space_id cfg) # evs1 @ evs2 @ evs3)))"
    by (simp add: update_via_step)
  ultimately show "update_via cfg rt w =
          (if ignore_errors cfg
           then (case update_rooms cfg rt w2 rooms of
                   (r, w3, evs3) \<Rightarrow>
                     (r, w3, SpaceGetHierarchy (space_id cfg) # evs1 @ evs0
                             @ [RoomPutState (space_id cfg) rid sg shuffled,
                                Print (CouldNotUpdate rid resp), Print (Before current),
                                Print (After shuffled)] @ evs3))
           else (Inl (ErrorUpdatingState resp), w2,
                 SpaceGetHierarchy (space_id cfg) # evs1 @ evs0
                 @ [RoomPutState (space_id cfg) rid sg shuffled]))"
    by simp
qed

theorem update_via_failures_witness:
  "hierarchy ((demo_world [])\<lparr>hierarchy := Inl ''M_NOT_FOUND''\<rparr>) = Inl ''M_NOT_FOUND''
   \<and> update_via demo_config demo_runtime ((demo_world [])\<lparr>hierarchy := Inl ''M_NOT_FOUND''\<rparr>)
       = (Inl (ErrorGettingSpace ''M_NOT_FOUND''),
          (demo_world [])\<lparr>hierarchy := Inl ''M_NOT_FOUND''\<rparr>,
          [SpaceGetHierarchy ''!space:a.org''])
   \<and> ignore_errors demo_config
   \<and> update_via demo_config demo_runtime
        ((demo_world [demo_child ''!r1:a.org'' [''a.org''],
                      demo_child ''!r2:a.org'' [''b.org'', ''a.org'', ''c.org'']])
           \<lparr>joined_members :=
              (\<lambda>rid. if rid = ''!r1:a.org'' then Inl ''M_FORBIDDEN'' else Inr demo_members)\<rparr>)
       = (Inr (),
          (demo_world [demo_child ''!r1:a.org'' [''a.org''],
                       demo_child ''!r2:a.org'' [''b.org'', ''a.org'', ''c.org'']])
           \<lparr>joined_members :=
              (\<lambda>rid. if rid = ''!r1:a.org'' then Inl ''M_FORBIDDEN'' else Inr demo_members)\<rparr>,
          [SpaceGetHierarchy ''!space:a.org'', JoinedMembers ''!r1:a.org'',
           Print (SkippingRoomError ''!r1:a.org'' ''M_FORBIDDEN''),
           JoinedMembers ''!r2:a.org'', RoomGetStateEvent ''!r2:a.org'',
           Print (SkippingRoomMatch ''!r2:a.org'')])
   \<and> \<not> ignore_errors (demo_config\<lparr>ignore_errors := False\<rparr>)
   \<and> update_via (demo_config\<lparr>ignore_errors := False\<rparr>) demo_runtime
        ((demo_world [demo_child ''!r1:a.org'' [''a.org''],
                      demo_child ''!r2:a.org'' [''b.org'', ''a.org'', ''c.org'']])
           \<lparr>put_state_error := (\<lambda>rid. Some ''M_FORBIDDEN'')\<rparr>)
       = (Inl (ErrorUpdatingState ''M_FORBIDDEN''),
          (demo_world [demo_child ''!r1:a.org'' [''a.org''],
                       demo_child ''!r2:a.org'' [''b.org'', ''a.org'', ''c.org'']])
           \<lparr>put_state_error := (\<lambda>rid. Some ''M_FORBIDDEN''), rng := 1\<rparr>,
          [SpaceGetHierarchy ''!space:a.org'', JoinedMembers ''!r1:a.org'',
           RoomGetStateEvent ''!r1:a.org'',
           RoomPutState ''!space:a.org'' ''!r1:a.org'' False [''c.org'', ''a.org'', ''b.org'']])"
  using update_via_failures
          [where w = "(demo_world [])\<lparr>hierarchy := Inl ''M_NOT_FOUND''\<rparr>"
             and resp = "''M_NOT_FOUND''" and cfg = demo_config and rt = demo_runtime,
           THEN conjunct1]
        update_via_failures
          [where w = "(demo_world [demo_child ''!r1:a.org'' [''a.org''],
                      demo_child ''!r2:a.org'' [''b.org'', ''a.org'', ''c.org'']])
                 \<lparr>joined_members :=
                    (\<lambda>rid. if rid = ''!r1:a.org'' then Inl ''M_FORBIDDEN''
                           else Inr demo_members)\<rparr>"
             and resp = "''M_FORBIDDEN''" and cfg = demo_config and rt = demo_runtime
             and space = "\<lparr>room_id = ''!space:a.org'', children_state =
                     [demo_child ''!r1:a.org'' [''a.org''],
                      demo_child ''!r2:a.org'' [''b.org'', ''a.org'', ''c.org'']]\<rparr>"
             and others = "[]" and pre = "[]"
             and room = "demo_child ''!r1:a.org'' [''a.org'']"
             and rooms = "[demo_child ''!r2:a.org'' [''b.org'', ''a.org'', ''c.org'']]"
             and ?w1.0 = "(demo_world [demo_child ''!r1:a.org'' [''a.org''],
                      demo_child ''!r2:a.org'' [''b.org'', ''a.org'', ''c.org'']])
                 \<lparr>joined_members :=
                    (\<lambda>rid. if rid = ''!r1:a.org'' then Inl ''M_FORBIDDEN''
                           else Inr demo_members)\<rparr>"
             and ?evs1.0 = "[]" and rid = "''!r1:a.org''",
           THEN conjunct2, THEN conjunct1]
        update_via_failures
          [where w = "(demo_world [demo_child ''!r1:a.org'' [''a.org''],
                      demo_child ''!r2:a.org'' [''b.org'', ''a.org'', ''c.org'']])
                 \<lparr>put_state_error := (\<lambda>rid. Some ''M_FORBIDDEN'')\<rparr>"
             and resp = "''M_FORBIDDEN''"
             and cfg = "demo_config\<lparr>ignore_errors := False\<rparr>" and rt = demo_runtime
             and space = "\<lparr>room_id = ''!space:a.org'', children_state =
                     [demo_child ''!r1:a.org'' [''a.org''],
                      demo_child ''!r2:a.org'' [''b.org'', ''a.org'', ''c.org'']]\<rparr>"
             and others = "[]" and pre = "[]"
             and room = "demo_child ''!r1:a.org'' [''a.org'']"
             and rooms = "[demo_child ''!r2:a.org'' [''b.org'', ''a.org'', ''c.org'']]"
             and ?w1.0 = "(demo_world [demo_child ''!r1:a.org'' [''a.org''],
                      demo_child ''!r2:a.org'' [''b.org'', ''a.org'', ''c.org'']])
                 \<lparr>put_state_error := (\<lambda>rid. Some ''M_FORBIDDEN'')\<rparr>"
             and ?evs1.0 = "[]" and rid = "''!r1:a.org''"
             and servers = "[''b.org'', ''a.org'', ''c.org'']"
             and ?evs0.0 = "[JoinedMembers ''!r1:a.org'', RoomGetStateEvent ''!r1:a.org'']"
             and current = "[''a.org'']" and sg = False
             and shuffled = "[''c.org'', ''a.org'', ''b.org'']"
             and ?w2.0 = "(demo_world [demo_child ''!r1:a.org'' [''a.org''],
                      demo_child ''!r2:a.org'' [''b.org'', ''a.org'', ''c.org'']])
                 \<lparr>put_state_error := (\<lambda>rid. Some ''M_FORBIDDEN''), rng := 1\<rparr>",
           THEN conjunct2, THEN conjunct2]
  by (simp add: demo_defs run_defs child_room_id_def)

subsection \<open>Running the script twice\<close>

lemma length_candidate_servers:
  assumes "runtime_ok rt" and "runtime_ok rt'"
  shows "length (candidate_servers cfg rt all_servers common highest)
       = length (candidate_servers cfg rt' all_servers common highest)"
proof -
  have "length (candidate_servers cfg r all_servers common highest)
      = card ({s \<in> set (additional_servers cfg). s \<in> set all_servers} \<union> set common \<union> set highest)"
    if "runtime_ok r" for r
    using distinct_card [OF distinct_candidate_servers [OF that, of cfg all_servers common highest]]
      set_candidate_servers [OF that, of cfg all_servers common highest]
    by simp
  with assms show ?thesis by simp
qed

lemma select_servers_set_eq:
  assumes "runtime_ok rt" and "runtime_ok rt'"
    and "select_servers cfg rt w rid = (Proceed s, evs)"
  shows "\<exists>s'. select_servers cfg rt' w rid = (Proceed s', evs) \<and> set s' = set s"
proof -
  from select_servers_Proceed [OF assms(3)] obtain members all_servers pl highest where
    m: "joined_members w rid = Inr members" "homeservers members = Inr all_servers"
      "power_levels_event w rid = Inr pl"
      "highest_level_servers (member_levels pl members) = Inr highest"
    and s: "s = complete_servers cfg rt all_servers
                  (candidate_servers cfg rt all_servers
                     (most_common_servers all_servers (most_common_count cfg)
                        (min_users_per_server cfg)) highest)"
    and evs: "evs = [JoinedMembers rid, RoomGetStateEvent rid]"
    by blast
  let ?common = "most_common_servers all_servers (most_common_count cfg) (min_users_per_server cfg)"
  let ?s' = "complete_servers cfg rt' all_servers
               (candidate_servers cfg rt' all_servers ?common highest)"
  from m evs have "select_servers cfg rt' w rid = (Proceed ?s', evs)"
    by (simp add: select_servers_def)
  moreover have "set ?s' = set s"
    unfolding s
    by (simp add: set_complete_servers [OF assms(1)] set_complete_servers [OF assms(2)]
          set_candidate_servers [OF assms(1)] set_candidate_servers [OF assms(2)]
          length_candidate_servers [OF assms(1,2), of cfg all_servers ?common highest])
  ultimately show ?thesis by blast
qed

lemma computed_set_Proceed:
  assumes "runtime_ok rt" and "select_servers cfg rt w rid = (Proceed s, evs)"
  shows "computed_set cfg w rid = Some (set s)"
  using select_servers_set_eq [OF assms(1) plain_runtime_ok assms(2)]
  by (auto simp: computed_set_def)

lemma computed_set_Some:
  assumes "runtime_ok rt" and "computed_set cfg w rid = Some S"
  shows "\<exists>s. select_servers cfg rt w rid = (Proceed s, [JoinedMembers rid, RoomGetStateEvent rid])
             \<and> set s = S"
proof -
  from assms(2) obtain s0 evs0 where
    p: "select_servers cfg plain_runtime w rid = (Proceed s0, evs0)" and S: "S = set s0"
    by (cases "select_servers cfg plain_runtime w rid")
       (auto simp: computed_set_def split: flow.splits)
  from select_servers_Proceed [OF p] have "evs0 = [JoinedMembers rid, RoomGetStateEvent rid]"
    by blast
  with select_servers_set_eq [OF plain_runtime_ok assms(1) p] S show ?thesis by blast
qed

lemma computed_set_cong:
  "joined_members w' = joined_members w \<Longrightarrow> power_levels_event w' = power_levels_event w \<Longrightarrow>
   computed_set cfg w' rid = computed_set cfg w rid"
  by (simp add: computed_set_def select_servers_cong [of w' w])

lemma settled_cong:
  "joined_members w' = joined_members w \<Longrightarrow> power_levels_event w' = power_levels_event w \<Longrightarrow>
   settled cfg w' room = settled cfg w room"
  by (simp add: settled_def computed_set_cong [of w' w] cong: option.case_cong py_str.case_cong if_cong)

lemma updated_cong:
  "joined_members w' = joined_members w \<Longrightarrow> power_levels_event w' = power_levels_event w \<Longrightarrow>
   updated cfg w' K c c' = updated cfg w K c c'"
  by (simp add: updated_def computed_set_cong [of w' w] cong: option.case_cong if_cong)

lemma process_room_settled:
  assumes "runtime_ok rt" and "settled cfg w room"
  shows "process_room cfg rt w room = (Inr (), w, already_match_events room)"
proof (cases "child_room_id room")
  case None
  with assms(2) show ?thesis
    by (auto simp: settled_def process_room_def already_match_events_def child_room_id_def
             split: option.splits py_str.splits if_splits)
next
  case (Some rid)
  then have k: "ev_type room = Some ''m.space.child''" "state_key room = Some (PyStr rid)" "rid \<noteq> []"
    by (simp_all add: child_room_id_Some)
  with assms(2) obtain current where
    c: "via room = Some current" "computed_set cfg w rid = Some (set current)"
    by (auto simp: settled_def split: option.splits)
  from computed_set_Some [OF assms(1) c(2)] obtain s where
    "select_servers cfg rt w rid = (Proceed s, [JoinedMembers rid, RoomGetStateEvent rid])"
    "set s = set current" by blast
  then have "fst (select_servers cfg rt w rid) = Proceed s" "set current = set s" by simp_all
  from process_room_match [OF Some this(1) c(1) this(2)] Some show ?thesis
    by (simp add: already_match_events_def)
qed

lemma update_rooms_settled:
  "runtime_ok rt \<Longrightarrow> \<forall>room \<in> set rooms. settled cfg w room \<Longrightarrow>
   update_rooms cfg rt w rooms = (Inr (), w, concat (map already_match_events rooms))"
  by (induction rooms) (simp_all add: process_room_settled)

lemma apply_via_effect:
  assumes "runtime_ok rt" and "\<not> dry_run cfg"
    and "apply_via cfg rt w room rid servers = (Inr (), w', evs)"
    and "\<forall>ev \<in> set evs. \<not> error_line ev"
  shows "(\<exists>current. via room = Some current \<and> set current = set servers \<and> w' = w)
       \<or> (\<exists>sg v. set v = set servers
              \<and> hierarchy w' = put_hierarchy rid sg v (hierarchy w))"
proof -
  from assms(3) obtain current where c: "via room = Some current"
    by (cases "via room") (auto simp: apply_via_def)
  show ?thesis
  proof (cases "set current = set servers")
    case True
    with assms(3) c show ?thesis by (simp add: apply_via_def)
  next
    case False
    let ?sh = "if shuffle_order cfg then shuffle rt (rng w) servers else (servers, rng w)"
    from c False assms(3) obtain sg where sg: "suggested room = Some sg"
      by (cases "suggested room") (auto simp: apply_via_def split: prod.splits)
    have "mset (fst ?sh) = mset servers" by (rule shuffle_mset [OF assms(1)])
    then have sv: "set (fst ?sh) = set servers" by (rule mset_eq_setD)
    obtain x1 x2 where sh: "?sh = (x1, x2)" by (cases ?sh) auto
    have "hierarchy w' = put_hierarchy rid sg x1 (hierarchy w)"
    proof (cases "put_state_error w rid")
      case None
      with c False sg sh assms(2,3) show ?thesis
        by (simp add: apply_via_def room_put_state_def Let_def) auto
    next
      case (Some resp)
      with c False sg sh assms(2,3) have "ignore_errors cfg"
        "evs = [RoomPutState (space_id cfg) rid sg x1, Print (CouldNotUpdate rid resp),
                Print (Before current), Print (After x1)]"
        by (simp_all add: apply_via_def room_put_state_def Let_def split: if_splits)
      with assms(4) show ?thesis by simp
    qed
    with sv sh show ?thesis by auto
  qed
qed

lemma process_room_effect:
  assumes "runtime_ok rt" and "\<not> dry_run cfg"
    and "process_room cfg rt w room = (Inr (), w', evs)"
    and "\<forall>ev \<in> set evs. \<not> error_line ev"
  shows "(settled cfg w room \<and> hierarchy w' = hierarchy w)
       \<or> (\<exists>rid sg v. child_room_id room = Some rid \<and> computed_set cfg w rid = Some (set v)
              \<and> hierarchy w' = put_hierarchy rid sg v (hierarchy w))"
proof (cases "child_room_id room")
  case None
  with assms(3) have "settled cfg w room \<and> w' = w"
    by (auto simp: settled_def process_room_def child_room_id_def
             split: option.splits py_str.splits if_splits)
  then show ?thesis by simp
next
  case (Some rid)
  then have k: "ev_type room = Some ''m.space.child''" "state_key room = Some (PyStr rid)" "rid \<noteq> []"
    by (simp_all add: child_room_id_Some)
  obtain f evs0 where sel: "select_servers cfg rt w rid = (f, evs0)"
    by (cases "select_servers cfg rt w rid") auto
  show ?thesis
  proof (cases f)
    case (Raise e)
    with assms(3) k sel show ?thesis by (simp add: process_room_def)
  next
    case Continue
    with sel have "\<exists>resp. evs0 = [JoinedMembers rid, Print (SkippingRoomError rid resp)]"
      by (auto simp: select_servers_def Let_def split: sum.splits if_splits)
    moreover from assms(3) k sel Continue have "evs = evs0" by (simp add: process_room_def)
    ultimately show ?thesis using assms(4) by auto
  next
    case (Proceed servers)
    obtain r2 w2 evs2 where ap: "apply_via cfg rt w room rid servers = (r2, w2, evs2)"
      by (cases "apply_via cfg rt w room rid servers") auto
    from assms(3) k sel Proceed ap have r: "r2 = Inr ()" "w2 = w'" "evs = evs0 @ evs2"
      by (simp_all add: process_room_def)
    with ap have ap': "apply_via cfg rt w room rid servers = (Inr (), w', evs2)" by simp
    from r(3) assms(4) have ne: "\<forall>ev \<in> set evs2. \<not> error_line ev" by simp
    from sel Proceed have cs: "computed_set cfg w rid = Some (set servers)"
      using computed_set_Proceed [OF assms(1)] by simp
    from apply_via_effect [OF assms(1,2) ap' ne] show ?thesis
    proof
      assume "\<exists>current. via room = Some current \<and> set current = set servers \<and> w' = w"
      then obtain current where "via room = Some current" "set current = set servers" "w' = w"
        by blast
      with k cs have "settled cfg w room \<and> hierarchy w' = hierarchy w"
        by (simp add: settled_def)
      then show ?thesis by simp
    next
      assume "\<exists>sg v. set v = set servers \<and> hierarchy w' = put_hierarchy rid sg v (hierarchy w)"
      then obtain sg v where "set v = set servers"
        "hierarchy w' = put_hierarchy rid sg v (hierarchy w)" by blast
      with Some cs have "child_room_id room = Some rid \<and> computed_set cfg w rid = Some (set v)
              \<and> hierarchy w' = put_hierarchy rid sg v (hierarchy w)" by simp
      then show ?thesis by blast
    qed
  qed
qed

lemma updated_refl: "updated cfg w {} c c"
  by (simp add: updated_def split: option.splits)

lemma updated_put_child:
  assumes "computed_set cfg w rid = Some (set v)" and "rid \<noteq> []"
  shows "updated cfg w {rid} c (put_child rid sg v c)"
proof (cases "ev_type c = Some ''m.space.child'' \<and> state_key c = Some (PyStr rid)")
  case True
  with assms have "child_room_id c = Some rid" by (simp add: child_room_id_Some)
  with True assms(1) show ?thesis by (simp add: updated_def put_child_def)
next
  case False
  then have "child_room_id c \<noteq> Some rid" by (auto simp: child_room_id_Some)
  with False show ?thesis
    by (auto simp: updated_def put_child_def split: option.splits)
qed

lemma updated_trans:
  assumes "updated cfg w K1 c c1" and "updated cfg w K2 c1 c'"
  shows "updated cfg w (K1 \<union> K2) c c'"
proof -
  from assms(1) have same: "ev_type c1 = ev_type c" "state_key c1 = state_key c"
    by (simp_all add: updated_def)
  then have cr: "child_room_id c1 = child_room_id c" by (simp add: child_room_id_def)
  show ?thesis
  proof (cases "child_room_id c")
    case None
    with assms cr show ?thesis by (simp add: updated_def)
  next
    case (Some rid)
    show ?thesis
    proof (cases "rid \<in> K2")
      case True
      with assms(2) cr Some same show ?thesis by (simp add: updated_def)
    next
      case False
      with assms(2) cr Some have "c' = c1" by (simp add: updated_def)
      with assms(1) Some False show ?thesis by (simp add: updated_def)
    qed
  qed
qed

lemma updated_settled:
  assumes "updated cfg w K c c'"
    and "settled cfg w c \<or> (\<exists>rid \<in> K. child_room_id c = Some rid)"
  shows "settled cfg w c'"
proof (cases "\<exists>rid \<in> K. child_room_id c = Some rid")
  case True
  then obtain rid where r: "rid \<in> K" "child_room_id c = Some rid" by blast
  then have "ev_type c = Some ''m.space.child''" "state_key c = Some (PyStr rid)" "rid \<noteq> []"
    by (simp_all add: child_room_id_Some)
  with assms(1) r show ?thesis
    by (auto simp: updated_def settled_def split: option.splits)
next
  case False
  with assms(1) have "c' = c" by (auto simp: updated_def split: option.splits if_splits)
  with assms(2) False show ?thesis by simp
qed

lemma process_room_children:
  assumes "runtime_ok rt" and "\<not> dry_run cfg"
    and "hierarchy w = Inr (space # others)"
    and "process_room cfg rt w room = (Inr (), w1, evs)"
    and "\<forall>ev \<in> set evs. \<not> error_line ev"
  shows "\<exists>K cs1. hierarchy w1 = Inr (space\<lparr>children_state := cs1\<rparr> # others)
           \<and> list_all2 (updated cfg w K) (children_state space) cs1
           \<and> (settled cfg w room \<or> (\<exists>rid \<in> K. child_room_id room = Some rid))"
proof -
  from process_room_effect [OF assms(1,2,4,5)] show ?thesis
  proof
    assume a: "settled cfg w room \<and> hierarchy w1 = hierarchy w"
    have "list_all2 (updated cfg w {}) (children_state space) (children_state space)"
      by (simp add: list_all2_refl updated_refl)
    moreover from a assms(3)
    have "hierarchy w1 = Inr (space\<lparr>children_state := children_state space\<rparr> # others)"
      by simp
    ultimately show ?thesis using a by blast
  next
    assume "\<exists>rid sg v. child_room_id room = Some rid \<and> computed_set cfg w rid = Some (set v)
              \<and> hierarchy w1 = put_hierarchy rid sg v (hierarchy w)"
    then obtain rid sg v where b: "child_room_id room = Some rid"
      "computed_set cfg w rid = Some (set v)"
      "hierarchy w1 = put_hierarchy rid sg v (hierarchy w)" by blast
    from b(1) have "rid \<noteq> []" by (simp add: child_room_id_Some)
    with b(2) have "updated cfg w {rid} c (put_child rid sg v c)" for c
      by (rule updated_put_child)
    then have "list_all2 (updated cfg w {rid}) (children_state space)
                 (map (put_child rid sg v) (children_state space))"
      by (simp add: list_all2_map2 list_all2_refl)
    moreover from b(3) assms(3)
    have "hierarchy w1 = Inr (space\<lparr>children_state :=
              map (put_child rid sg v) (children_state space)\<rparr> # others)"
      by (simp add: put_hierarchy_def)
    ultimately show ?thesis using b(1) by blast
  qed
qed

lemma update_rooms_children:
  assumes "runtime_ok rt" and "\<not> dry_run cfg"
  shows "hierarchy w = Inr (space # others) \<Longrightarrow>
         update_rooms cfg rt w rooms = (Inr (), w', evs) \<Longrightarrow>
         \<forall>ev \<in> set evs. \<not> error_line ev \<Longrightarrow>
         \<exists>K cs'. hierarchy w' = Inr (space\<lparr>children_state := cs'\<rparr> # others)
           \<and> list_all2 (updated cfg w K) (children_state space) cs'
           \<and> (\<forall>room \<in> set rooms. settled cfg w room \<or> (\<exists>rid \<in> K. child_room_id room = Some rid))"
proof (induction rooms arbitrary: w space evs)
  case Nil
  have "list_all2 (updated cfg w {}) (children_state space) (children_state space)"
    by (simp add: list_all2_refl updated_refl)
  moreover from Nil have "hierarchy w' = Inr (space\<lparr>children_state := children_state space\<rparr> # others)"
    by simp
  ultimately show ?case by (metis empty_iff empty_set)
next
  case (Cons room rooms)
  obtain r1 w1 evs1 where p: "process_room cfg rt w room = (r1, w1, evs1)"
    by (cases "process_room cfg rt w room") auto
  obtain r2 w2 evs2 where u: "update_rooms cfg rt w1 rooms = (r2, w2, evs2)"
    by (cases "update_rooms cfg rt w1 rooms") auto
  from Cons.prems(2) p have r1: "r1 = Inr ()" by (cases r1) auto
  with Cons.prems(2) p u have r2: "r2 = Inr ()" "w2 = w'" "evs = evs1 @ evs2" by simp_all
  from p r1 have p': "process_room cfg rt w room = (Inr (), w1, evs1)" by simp
  from u r2 have u': "update_rooms cfg rt w1 rooms = (Inr (), w', evs2)" by simp
  from Cons.prems(3) r2(3) have ne1: "\<forall>ev \<in> set evs1. \<not> error_line ev"
    and ne2: "\<forall>ev \<in> set evs2. \<not> error_line ev" by simp_all
  note pw = process_room_world [OF p]
  from process_room_children [OF assms Cons.prems(1) p' ne1] obtain K1 cs1 where
    h1: "hierarchy w1 = Inr (space\<lparr>children_state := cs1\<rparr> # others)"
    and l1: "list_all2 (updated cfg w K1) (children_state space) cs1"
    and s1: "settled cfg w room \<or> (\<exists>rid \<in> K1. child_room_id room = Some rid)"
    by blast
  from Cons.IH [OF h1 u' ne2] obtain K2 cs' where
    h2: "hierarchy w' = Inr (space\<lparr>children_state := cs1\<rparr>\<lparr>children_state := cs'\<rparr> # others)"
    and l2: "list_all2 (updated cfg w1 K2) (children_state (space\<lparr>children_state := cs1\<rparr>)) cs'"
    and s2: "\<forall>room \<in> set rooms. settled cfg w1 room \<or> (\<exists>rid \<in> K2. child_room_id room = Some rid)"
    by blast
  have uc: "updated cfg w1 K2 = updated cfg w K2"
    using pw by (intro ext) (simp add: updated_cong [of w1 w])
  have sc: "settled cfg w1 = settled cfg w"
    using pw by (intro ext) (simp add: settled_cong [of w1 w])
  from l2 uc have l2': "list_all2 (updated cfg w K2) cs1 cs'" by simp
  have "list_all2 (updated cfg w (K1 \<union> K2)) (children_state space) cs'"
    using updated_trans l1 l2' by (rule list_all2_trans)
  moreover from h2 have "hierarchy w' = Inr (space\<lparr>children_state := cs'\<rparr> # others)" by simp
  moreover from s1 s2 sc
  have "\<forall>room' \<in> set (room # rooms).
          settled cfg w room' \<or> (\<exists>rid \<in> K1 \<union> K2. child_room_id room' = Some rid)"
    by auto
  ultimately show ?case by blast
qed

lemma updated_events:
  "updated cfg w K c c' \<Longrightarrow> already_match_events c' = already_match_events c"
  by (simp add: updated_def already_match_events_def child_room_id_def)

lemma list_all2_updated:
  assumes "list_all2 (updated cfg w K) cs cs'"
    and "\<forall>room \<in> set cs. settled cfg w room \<or> (\<exists>rid \<in> K. child_room_id room = Some rid)"
  shows "(\<forall>c' \<in> set cs'. settled cfg w c')
       \<and> map already_match_events cs' = map already_match_events cs"
  using assms
proof (induction rule: list_all2_induct)
  case Nil
  then show ?case by simp
next
  case (Cons c cs c' cs')
  from Cons.prems have "settled cfg w c \<or> (\<exists>rid \<in> K. child_room_id c = Some rid)" by simp
  from updated_settled [OF Cons.hyps(1) this] updated_events [OF Cons.hyps(1)] Cons.IH Cons.prems
  show ?case by simp
qed

lemma already_match_events_no_put: "\<forall>ev \<in> set (already_match_events c). \<not> is_put ev"
  by (auto simp: already_match_events_def split: option.splits)

text \<open>
  C1, as stated, for a membership that is unchanged as a set of members: the frequency
  selection cuts its sorted list at \<open>n\<close>, and servers with the same count stand in the
  order in which the membership response lists their members. Here two servers tie for
  one place. The first run, with the members listed as \<open>u, v\<close>, writes \<open>a.org\<close>; the
  second run finds the same two members listed as \<open>v, u\<close>, computes \<open>b.org\<close>, and
  writes again.
\<close>

theorem update_via_reordered_members_write_again:
  "update_via tie_config demo_runtime (tie_world [''@u:a.org'', ''@v:b.org''] [])
     = (Inr (), tie_world [''@u:a.org'', ''@v:b.org''] [''a.org''],
        [SpaceGetHierarchy ''!space:a.org'', JoinedMembers ''!r1:a.org'',
         RoomGetStateEvent ''!r1:a.org'',
         RoomPutState ''!space:a.org'' ''!r1:a.org'' False [''a.org''],
         Print (UpdatedRoom ''!r1:a.org''), Print (Before []), Print (After [''a.org''])])
   \<and> mset [''@v:b.org'', ''@u:a.org''] = mset [''@u:a.org'', ''@v:b.org'']
   \<and> update_via tie_config demo_runtime (tie_world [''@v:b.org'', ''@u:a.org''] [''a.org''])
     = (Inr (), tie_world [''@v:b.org'', ''@u:a.org''] [''b.org''],
        [SpaceGetHierarchy ''!space:a.org'', JoinedMembers ''!r1:a.org'',
         RoomGetStateEvent ''!r1:a.org'',
         RoomPutState ''!space:a.org'' ''!r1:a.org'' False [''b.org''],
         Print (UpdatedRoom ''!r1:a.org''), Print (Before [''a.org'']),
         Print (After [''b.org''])])
   \<and> computed_set tie_config (tie_world [''@u:a.org'', ''@v:b.org''] []) ''!r1:a.org''
       = Some {''a.org''}
   \<and> computed_set tie_config (tie_world [''@v:b.org'', ''@u:a.org''] []) ''!r1:a.org''
       = Some {''b.org''}"
  by (simp add: tie_config_def tie_world_def demo_runtime_def demo_child_def
        computed_set_def plain_runtime_def run_defs)

text \<open>
  C1, amended. Take a live run that returns without an exception and prints no ignored
  failure, and then a second run on the space as the first run left it, where every
  membership response lists the same members in the same order and the power levels are
  the same, under any enumeration order and any shuffle. The second run returns
  normally, changes nothing, issues no \<open>room_put_state\<close>, and its trace is the hierarchy
  fetch followed, for every entry that passes the tests at lines 39-45, by the two
  fetches and the line saying that the list already matches. Every list the first run
  wrote has, as a set, the set computed for its room from the configuration, the listed
  members and the power levels.
\<close>

theorem update_via_idempotent:
  assumes "runtime_ok rt1" and "runtime_ok rt2" and "\<not> dry_run cfg"
    and "update_via cfg rt1 w = (Inr (), w1, evs1)"
    and "\<forall>ev \<in> set evs1. \<not> error_line ev"
    and "hierarchy w2 = hierarchy w1"
    and "joined_members w2 = joined_members w"
    and "power_levels_event w2 = power_levels_event w"
  shows "\<exists>space others evs2.
           hierarchy w = Inr (space # others)
         \<and> update_via cfg rt2 w2 = (Inr (), w2, evs2)
         \<and> evs2 = SpaceGetHierarchy (space_id cfg)
                    # concat (map already_match_events (children_state space))
         \<and> (\<forall>ev \<in> set evs2. \<not> is_put ev)
         \<and> (\<forall>sid k sg v. RoomPutState sid k sg v \<in> set evs1
               \<longrightarrow> computed_set cfg w k = Some (set v))"
proof -
  from assms(4) obtain space others where hi: "hierarchy w = Inr (space # others)"
    by (auto simp: update_via_def split: sum.splits list.splits)
  obtain r0 w0 evs0 where u0: "update_rooms cfg rt1 w (children_state space) = (r0, w0, evs0)"
    by (cases "update_rooms cfg rt1 w (children_state space)") auto
  with assms(4) hi have r0: "r0 = Inr ()" "w0 = w1" "evs1 = SpaceGetHierarchy (space_id cfg) # evs0"
    by (simp_all add: update_via_def)
  with u0 have u: "update_rooms cfg rt1 w (children_state space) = (Inr (), w1, evs0)" by simp
  from assms(5) r0(3) have ne: "\<forall>ev \<in> set evs0. \<not> error_line ev" by simp
  from update_rooms_children [OF assms(1,3) hi u ne] obtain K cs' where
    h1: "hierarchy w1 = Inr (space\<lparr>children_state := cs'\<rparr> # others)"
    and l: "list_all2 (updated cfg w K) (children_state space) cs'"
    and s: "\<forall>room \<in> set (children_state space).
              settled cfg w room \<or> (\<exists>rid \<in> K. child_room_id room = Some rid)"
    by blast
  from list_all2_updated [OF l s] have
    st: "\<forall>c' \<in> set cs'. settled cfg w c'"
    and ev: "map already_match_events cs' = map already_match_events (children_state space)"
    by simp_all
  have "settled cfg w2 = settled cfg w"
    using assms(7,8) by (intro ext) (simp add: settled_cong [of w2 w])
  with st have "\<forall>c' \<in> set cs'. settled cfg w2 c'" by simp
  from update_rooms_settled [OF assms(2) this] ev
  have "update_rooms cfg rt2 w2 cs' =
          (Inr (), w2, concat (map already_match_events (children_state space)))"
    by simp
  with assms(6) h1 have run2: "update_via cfg rt2 w2 =
      (Inr (), w2, SpaceGetHierarchy (space_id cfg)
                   # concat (map already_match_events (children_state space)))"
    by (simp add: update_via_def)
  have np: "\<forall>ev \<in> set (SpaceGetHierarchy (space_id cfg)
                   # concat (map already_match_events (children_state space))). \<not> is_put ev"
    using already_match_events_no_put by auto
  have wr: "computed_set cfg w k = Some (set v)" if "RoomPutState sid k sg v \<in> set evs1"
    for sid k sg v
  proof -
    from that r0(3) have "RoomPutState sid k sg v \<in> set evs0" by simp
    from update_rooms_written_for [OF assms(1) u this] obtain entry where
      "written_for cfg rt1 w entry k v" by blast
    from written_for_mset [OF this] obtain computed where
      c: "fst (select_servers cfg rt1 w k) = Proceed computed" "mset v = mset computed"
      by blast
    obtain evs' where "select_servers cfg rt1 w k = (Proceed computed, evs')"
      using c(1) by (cases "select_servers cfg rt1 w k") auto
    from computed_set_Proceed [OF assms(1) this] mset_eq_setD [OF c(2)] show ?thesis by simp
  qed
  from hi run2 np wr show ?thesis by blast
qed

theorem update_via_idempotent_witness:
  "runtime_ok demo_runtime \<and> runtime_ok plain_runtime \<and> \<not> dry_run demo_config
   \<and> update_via demo_config demo_runtime
        (demo_world [demo_child ''!r1:a.org'' [''a.org''],
                     (demo_child '''' [])\<lparr>ev_type := Some ''m.room.topic''\<rparr>])
       = (Inr (),
          (demo_world [demo_child ''!r1:a.org'' [''c.org'', ''a.org'', ''b.org''],
                       (demo_child '''' [])\<lparr>ev_type := Some ''m.room.topic''\<rparr>])\<lparr>rng := 1\<rparr>,
          [SpaceGetHierarchy ''!space:a.org'', JoinedMembers ''!r1:a.org'',
           RoomGetStateEvent ''!r1:a.org'',
           RoomPutState ''!space:a.org'' ''!r1:a.org'' False [''c.org'', ''a.org'', ''b.org''],
           Print (UpdatedRoom ''!r1:a.org''), Print (Before [''a.org'']),
           Print (After [''c.org'', ''a.org'', ''b.org''])])
   \<and> update_via demo_config plain_runtime
        ((demo_world [demo_child ''!r1:a.org'' [''c.org'', ''a.org'', ''b.org''],
                      (demo_child '''' [])\<lparr>ev_type := Some ''m.room.topic''\<rparr>])\<lparr>rng := 1\<rparr>)
       = (Inr (),
          (demo_world [demo_child ''!r1:a.org'' [''c.org'', ''a.org'', ''b.org''],
                       (demo_child '''' [])\<lparr>ev_type := Some ''m.room.topic''\<rparr>])\<lparr>rng := 1\<rparr>,
          [SpaceGetHierarchy ''!space:a.org'', JoinedMembers ''!r1:a.org'',
           RoomGetStateEvent ''!r1:a.org'', Print (SkippingRoomMatch ''!r1:a.org'')])"
proof -
  let ?w = "demo_world [demo_child ''!r1:a.org'' [''a.org''],
                     (demo_child '''' [])\<lparr>ev_type := Some ''m.room.topic''\<rparr>]"
  let ?w1 = "(demo_world [demo_child ''!r1:a.org'' [''c.org'', ''a.org'', ''b.org''],
                       (demo_child '''' [])\<lparr>ev_type := Some ''m.room.topic''\<rparr>])\<lparr>rng := 1\<rparr>"
  let ?evs1 = "[SpaceGetHierarchy ''!space:a.org'', JoinedMembers ''!r1:a.org'',
           RoomGetStateEvent ''!r1:a.org'',
           RoomPutState ''!space:a.org'' ''!r1:a.org'' False [''c.org'', ''a.org'', ''b.org''],
           Print (UpdatedRoom ''!r1:a.org''), Print (Before [''a.org'']),
           Print (After [''c.org'', ''a.org'', ''b.org''])]"
  have d: "\<not> dry_run demo_config" by (simp add: demo_config_def)
  have run1: "update_via demo_config demo_runtime ?w = (Inr (), ?w1, ?evs1)"
    by (simp add: demo_defs run_defs)
  have ne: "\<forall>ev \<in> set ?evs1. \<not> error_line ev" by simp
  have j: "joined_members ?w1 = joined_members ?w"
    and pl: "power_levels_event ?w1 = power_levels_event ?w"
    by (simp_all add: demo_world_def)
  from update_via_idempotent [OF demo_runtime_ok plain_runtime_ok d run1 ne refl j pl]
  obtain space others evs2 where
    h: "hierarchy ?w = Inr (space # others)"
    and r: "update_via demo_config plain_runtime ?w1 = (Inr (), ?w1, evs2)"
    and e: "evs2 = SpaceGetHierarchy (space_id demo_config)
                    # concat (map already_match_events (children_state space))"
    by blast
  from h have "children_state space = [demo_child ''!r1:a.org'' [''a.org''],
                     (demo_child '''' [])\<lparr>ev_type := Some ''m.room.topic''\<rparr>]"
    by (auto simp: demo_world_def)
  with e have "evs2 = [SpaceGetHierarchy ''!space:a.org'', JoinedMembers ''!r1:a.org'',
           RoomGetStateEvent ''!r1:a.org'', Print (SkippingRoomMatch ''!r1:a.org'')]"
    by (simp add: already_match_events_def child_room_id_def demo_child_def demo_config_def)
  with r run1 d demo_runtime_ok plain_runtime_ok show ?thesis by simp
qed

end
